theory Spec2Isabelle
  imports Complex_Main "HOL-Library.AList" "HOL-Library.Sublist"
begin

unbundle bit_operations_syntax

section \<open>Values shared by the scanner and the anomaly detector\<close>

text \<open>
  Python dictionaries keep insertion order: a dictionary is an association list with
  distinct keys, \<open>d[k] = v\<close> is \<open>AList.update k v d\<close> (an existing key keeps its place,
  a new key goes to the end), \<open>k in d\<close> and \<open>d[k]\<close> read \<open>map_of d k\<close>, and
  \<open>d.items()\<close> is the list itself. Port numbers, TCP flags and timeouts are Python
  integers (\<open>int\<close>); progress and confidence values are written as exact rationals.
\<close>

datatype error =
    KeyError string
  | ZeroDivisionError
  | Fault string

fun str_error :: "error \<Rightarrow> string" where
  "str_error (KeyError k) = [CHR 0x27] @ k @ [CHR 0x27]"
| "str_error ZeroDivisionError = ''division by zero''"
| "str_error (Fault m) = m"

datatype 'a outcome = Raised string | Returned 'a

text \<open>A reply packet: \<open>haslayer(TCP)\<close> holds when \<open>tcp_flags\<close> is present.\<close>

datatype packet = Packet (tcp_flags: "int option")

text \<open>\<open>str(n)\<close> for a Python integer.\<close>

function str_nat :: "nat \<Rightarrow> string" where
  "str_nat n =
     (if n < 10 then [''0123456789'' ! n]
      else str_nat (n div 10) @ [''0123456789'' ! (n mod 10)])"
  by pat_completeness auto
termination
  by (relation "measure id") auto

declare str_nat.simps [simp del]

definition str_int :: "int \<Rightarrow> string" where
  "str_int i = (if i < 0 then CHR ''-'' # str_nat (nat (- i)) else str_nat (nat i))"

definition startswith :: "string \<Rightarrow> string \<Rightarrow> bool" where
  "startswith s p = (take (length p) s = p)"

section \<open>The outside world of one scan\<close>

text \<open>
  \<open>srp\<close> is the answered list of the ARP broadcast for a target, \<open>sr1\<close> the reply to the
  SYN segment sent to a target and port with a timeout (\<open>None\<close>: no reply in time);
  either may raise, which covers building the packet and sending it. \<open>fault\<close> names the
  places outside a per-probe or per-target unit of work where a collaborator (the worker
  pool, the file system, the tracer) can raise. The clock values are what
  \<open>time.time()\<close> returns in \<open>start_scan\<close> and at the start and the end of the execution.
\<close>

datatype stage = Discovery | Submit nat | Detect | Save

record env =
  srp :: "string \<Rightarrow> packet list outcome"
  sr1 :: "string \<Rightarrow> int \<Rightarrow> int \<Rightarrow> packet option outcome"
  fault :: "stage \<Rightarrow> string option"
  clock_request :: rat
  clock_start :: rat
  clock_end :: rat

section \<open>Scan data\<close>

record port_result =
  pr_status :: string
  pr_service :: string
  pr_error :: "string option"

record target_result =
  tr_status :: string
  tr_ports :: "(int \<times> port_result) list"

type_synonym results_dict = "(string \<times> target_result) list"

record finding =
  f_type :: string
  f_target :: "string option"
  f_targets :: "string list option"
  f_port :: "int option"
  f_ports :: "int list option"
  f_service :: "string option"
  f_description :: string
  f_severity :: string
  f_confidence :: rat

text \<open>The local \<open>results\<close> dictionary of \<open>_execute_scan\<close>, stored and saved on completion.\<close>

record scan_result =
  sr_scan_id :: string
  sr_start_time :: rat
  sr_targets :: "string list"
  sr_ports :: "int list"
  sr_timeout :: int
  sr_results :: results_dict
  sr_anomalies :: "finding list option"
  sr_end_time :: "rat option"
  sr_duration :: "rat option"

section \<open>NetworkScanner: service guess and port probe\<close>

definition common_ports :: "(int \<times> string) list" where
  "common_ports =
     [(21, ''FTP''), (22, ''SSH''), (23, ''Telnet''), (25, ''SMTP''), (53, ''DNS''),
      (80, ''HTTP''), (110, ''POP3''), (143, ''IMAP''), (443, ''HTTPS''), (445, ''SMB''),
      (3306, ''MySQL''), (3389, ''RDP''), (5432, ''PostgreSQL''), (8080, ''HTTP-Proxy''),
      (8443, ''HTTPS-Alt'')]"

definition guess_service :: "int \<Rightarrow> string" where
  "guess_service port =
     (case map_of common_ports port of
        Some name \<Rightarrow> name
      | None \<Rightarrow> ''Unknown ('' @ str_int port @ '')'')"

text \<open>
  The classification of \<open>_scan_port\<close>: the default is closed; a reply with a TCP layer
  is tested with \<open>flags & 0x12\<close> and then \<open>flags & 0x14\<close>, each true when the bitwise
  conjunction is not zero.
\<close>

definition port_status :: "packet option \<Rightarrow> int \<Rightarrow> port_result" where
  "port_status response port =
     (let dflt = \<lparr>pr_status = ''closed'', pr_service = guess_service port, pr_error = None\<rparr>
      in case response of
           None \<Rightarrow> dflt
         | Some pkt \<Rightarrow>
             (case tcp_flags pkt of
                None \<Rightarrow> dflt
              | Some flags \<Rightarrow>
                  if flags AND 0x12 \<noteq> 0 then dflt\<lparr>pr_status := ''open''\<rparr>
                  else if flags AND 0x14 \<noteq> 0 then dflt\<lparr>pr_status := ''closed''\<rparr>
                  else dflt))"

text \<open>\<open>results['results'][target]['ports'][port] = value\<close>; a missing target is a KeyError.\<close>

definition set_port_result ::
  "results_dict \<Rightarrow> string \<Rightarrow> int \<Rightarrow> port_result \<Rightarrow> error + results_dict" where
  "set_port_result results target port v =
     (case map_of results target of
        None \<Rightarrow> Inl (KeyError target)
      | Some tr \<Rightarrow>
          Inr (AList.update target (tr\<lparr>tr_ports := AList.update port v (tr_ports tr)\<rparr>) results))"

definition error_result :: "int \<Rightarrow> string \<Rightarrow> port_result" where
  "error_result port msg =
     \<lparr>pr_status = ''error'', pr_service = guess_service port, pr_error = Some msg\<rparr>"

text \<open>
  \<open>_scan_port\<close>: everything in the \<open>try\<close> block that raises is caught, and the handler
  writes the error result; only an exception of the handler itself leaves the function.
\<close>

definition scan_port ::
  "env \<Rightarrow> string \<Rightarrow> int \<Rightarrow> int \<Rightarrow> results_dict \<Rightarrow> error + results_dict" where
  "scan_port e target port timeout results =
     (case sr1 e target port timeout of
        Raised msg \<Rightarrow> set_port_result results target port (error_result port msg)
      | Returned response \<Rightarrow>
          (case set_port_result results target port (port_status response port) of
             Inr results' \<Rightarrow> Inr results'
           | Inl err \<Rightarrow> set_port_result results target port (error_result port (str_error err))))"

text \<open>The second classifier of the source, \<open>scan_with_scapy\<close>, for one port.\<close>

definition scapy_status :: "packet option \<Rightarrow> string" where
  "scapy_status resp =
     (case resp of
        None \<Rightarrow> ''filtered''
      | Some pkt \<Rightarrow>
          (case tcp_flags pkt of
             None \<Rightarrow> ''filtered''
           | Some flags \<Rightarrow>
               if flags = 0x12 then ''open''
               else if flags = 0x14 then ''closed''
               else ''filtered''))"

section \<open>NetworkScanner: host discovery\<close>

definition is_ip_in_local_network :: "string \<Rightarrow> bool" where
  "is_ip_in_local_network ip =
     (startswith ip ''192.168.'' \<or> startswith ip ''10.'' \<or> startswith ip ''172.'')"

text \<open>
  One round of the loop of \<open>_discover_hosts\<close>: whether the target is appended. The
  exception handler appends it too.
\<close>

definition host_is_live :: "env \<Rightarrow> string \<Rightarrow> bool" where
  "host_is_live e target =
     (if is_ip_in_local_network target then
        (case srp e target of
           Raised msg \<Rightarrow> True
         | Returned result \<Rightarrow> result \<noteq> [])
      else
        (case sr1 e target 80 1 of
           Raised msg \<Rightarrow> True
         | Returned ping_response \<Rightarrow> ping_response \<noteq> None))"

fun discover_loop :: "env \<Rightarrow> string list \<Rightarrow> string list \<Rightarrow> string list" where
  "discover_loop e [] live_hosts = live_hosts"
| "discover_loop e (target # targets) live_hosts =
     discover_loop e targets
       (if host_is_live e target then live_hosts @ [target] else live_hosts)"

definition discover_hosts :: "env \<Rightarrow> string list \<Rightarrow> string list" where
  "discover_hosts e targets = discover_loop e targets []"

section \<open>AnomalyDetector\<close>

text \<open>
  The findings are dictionaries with a \<open>type\<close> key; a key that a kind of finding does
  not have is \<open>None\<close>. The loops that append to \<open>anomalies\<close> are written as the list
  of what each round appends, in the order of the rounds.
\<close>

definition open_ports_of :: "target_result \<Rightarrow> int list" where
  "open_ports_of target_data =
     map fst (filter (\<lambda>(port, port_data). pr_status port_data = ''open'') (tr_ports target_data))"

definition suspicious_combinations :: "(int list \<times> string) list" where
  "suspicious_combinations =
     [([22, 2222], ''Multiple SSH ports open''),
      ([80, 8080, 8888], ''Multiple HTTP ports open''),
      ([21, 22, 23], ''Multiple remote access services''),
      ([3306, 5432], ''Multiple database services'')]"

definition combination_finding :: "string \<Rightarrow> int list \<Rightarrow> string \<Rightarrow> finding" where
  "combination_finding target matching_ports description =
     \<lparr>f_type = ''unusual_port_combination'', f_target = Some target, f_targets = None,
      f_port = None, f_ports = Some matching_ports, f_service = None,
      f_description = description, f_severity = ''medium'', f_confidence = 75 / 100\<rparr>"

definition check_unusual_port_combinations :: "scan_result \<Rightarrow> finding list" where
  "check_unusual_port_combinations scan_results =
     concat (map (\<lambda>(target, target_data).
       let open_ports = open_ports_of target_data in
       concat (map (\<lambda>(combo_ports, description).
         let matching_ports = filter (\<lambda>p. p \<in> set open_ports) combo_ports in
         if length matching_ports \<ge> 2
         then [combination_finding target matching_ports description]
         else []) suspicious_combinations)) (sr_results scan_results))"

definition vulnerable_services :: "(int \<times> string \<times> string \<times> string) list" where
  "vulnerable_services =
     [(21, ''FTP'', ''Plaintext FTP service detected'', ''high''),
      (23, ''Telnet'', ''Plaintext Telnet service detected'', ''high''),
      (25, ''SMTP'', ''SMTP service might be vulnerable to relay attacks'', ''medium''),
      (445, ''SMB'', ''SMB service might be vulnerable to exploits'', ''high''),
      (3389, ''RDP'', ''RDP service might be vulnerable to brute force'', ''medium'')]"

definition check_potential_vulnerabilities :: "scan_result \<Rightarrow> finding list" where
  "check_potential_vulnerabilities scan_results =
     concat (map (\<lambda>(target, target_data).
       concat (map (\<lambda>(port, port_data).
         if pr_status port_data = ''open'' then
           concat (map (\<lambda>(vport, vservice, vdescription, vseverity).
             if port = vport then
               [\<lparr>f_type = ''potential_vulnerability'', f_target = Some target, f_targets = None,
                 f_port = Some port, f_ports = None, f_service = Some (pr_service port_data),
                 f_description = vdescription, f_severity = vseverity, f_confidence = 8 / 10\<rparr>]
             else []) vulnerable_services)
         else []) (tr_ports target_data))) (sr_results scan_results))"

definition targets_with_open_ports :: "results_dict \<Rightarrow> (string \<times> int list) list" where
  "targets_with_open_ports results =
     fold (\<lambda>(target, target_data) d.
            let open_ports = open_ports_of target_data in
            if open_ports \<noteq> [] then AList.update target open_ports d else d)
       results []"

text \<open>
  One round of the grouping loop: the sorted tuple of the open ports is the key; a new
  key starts with the empty list, and the target is appended to the key's list.
\<close>

definition add_to_pattern ::
  "string \<times> int list \<Rightarrow> (int list \<times> string list) list \<Rightarrow> (int list \<times> string list) list" where
  "add_to_pattern = (\<lambda>(target, open_ports) port_patterns.
     let port_pattern = sort open_ports;
         port_patterns' =
           (if map_of port_patterns port_pattern = None
            then AList.update port_pattern [] port_patterns else port_patterns)
     in AList.map_entry port_pattern (\<lambda>targets. targets @ [target]) port_patterns')"

definition group_by_pattern :: "(string \<times> int list) list \<Rightarrow> (int list \<times> string list) list" where
  "group_by_pattern with_open = fold add_to_pattern with_open []"

definition pattern_finding :: "int list \<Rightarrow> string list \<Rightarrow> finding" where
  "pattern_finding port_pattern targets =
     \<lparr>f_type = ''identical_port_pattern'', f_target = None, f_targets = Some targets,
      f_port = None, f_ports = Some port_pattern, f_service = None,
      f_description =
        ''Multiple hosts ('' @ str_nat (length targets) @ '') have identical open port patterns'',
      f_severity = ''low'', f_confidence = 7 / 10\<rparr>"

definition check_unusual_network_patterns :: "scan_result \<Rightarrow> finding list" where
  "check_unusual_network_patterns scan_results =
     (let with_open = targets_with_open_ports (sr_results scan_results) in
      if length with_open > 1 then
        concat (map (\<lambda>(port_pattern, targets).
          if length targets > 1 \<and> length port_pattern > 2
          then [pattern_finding port_pattern targets]
          else []) (group_by_pattern with_open))
      else [])"

definition detect :: "scan_result \<Rightarrow> finding list" where
  "detect scan_results =
     check_unusual_port_combinations scan_results
     @ check_potential_vulnerabilities scan_results
     @ check_unusual_network_patterns scan_results"

section \<open>NetworkScanner: scan lifecycle\<close>

text \<open>An entry of \<open>active_scans\<close>, and the scanner object's three stores.\<close>

record scan_state =
  st_status :: string
  st_start_time :: rat
  st_progress :: rat
  st_targets :: "string list"
  st_ports :: "int list"
  st_timeout :: int
  st_results :: results_dict
  st_end_time :: "rat option"
  st_duration :: "rat option"
  st_error :: "string option"

record scanner =
  active_scans :: "string \<rightharpoonup> scan_state"
  scan_results :: "string \<rightharpoonup> scan_result"
  results_files :: "string \<rightharpoonup> scan_result"

text \<open>What \<open>get_scan_status\<close> returns: the entry itself, or a summary of stored results.\<close>

datatype status_view =
    Entry scan_state
  | Summary (sv_status: string) (sv_progress: rat) (sv_start_time: rat)
      (sv_end_time: "rat option") (sv_duration: "rat option")

definition init_scanner :: scanner where
  "init_scanner = \<lparr>active_scans = Map.empty, scan_results = Map.empty, results_files = Map.empty\<rparr>"

text \<open>\<open>start_scan\<close> registers the entry; the thread it starts runs \<open>execute_scan\<close>.\<close>

definition start_scan :: "env \<Rightarrow> string \<Rightarrow> string list \<Rightarrow> int list \<Rightarrow> int \<Rightarrow> scanner \<Rightarrow> scanner" where
  "start_scan e scan_id targets ports timeout s =
     s\<lparr>active_scans := (active_scans s)(scan_id \<mapsto>
        \<lparr>st_status = ''running'', st_start_time = clock_request e, st_progress = 0,
         st_targets = targets, st_ports = ports, st_timeout = timeout, st_results = [],
         st_end_time = None, st_duration = None, st_error = None\<rparr>)\<rparr>"

text \<open>\<open>if scan_id in self.active_scans: self.active_scans[scan_id][...] = ...\<close>\<close>

definition update_active :: "string \<Rightarrow> (scan_state \<Rightarrow> scan_state) \<Rightarrow> scanner \<Rightarrow> scanner" where
  "update_active scan_id f s =
     (case active_scans s scan_id of
        None \<Rightarrow> s
      | Some st \<Rightarrow> s\<lparr>active_scans := (active_scans s)(scan_id \<mapsto> f st)\<rparr>)"

text \<open>
  The submission loops. A future stands for the probe it was submitted with; the probe's
  write to the local results is applied when the future is awaited, in submission order.
  \<open>executor.submit\<close> raises where the world says so.
\<close>

fun submit_ports ::
  "env \<Rightarrow> string \<Rightarrow> int list \<Rightarrow> (string \<times> int) list \<Rightarrow> error + (string \<times> int) list" where
  "submit_ports e target [] futures = Inr futures"
| "submit_ports e target (port # ports) futures =
     (case fault e (Submit (length futures)) of
        Some msg \<Rightarrow> Inl (Fault msg)
      | None \<Rightarrow> submit_ports e target ports (futures @ [(target, port)]))"

fun submit_hosts ::
  "env \<Rightarrow> string list \<Rightarrow> int list \<Rightarrow> results_dict \<Rightarrow> (string \<times> int) list
   \<Rightarrow> (error + (string \<times> int) list) \<times> results_dict" where
  "submit_hosts e [] ports results futures = (Inr futures, results)"
| "submit_hosts e (target # live_hosts) ports results futures =
     (let results' = AList.update target \<lparr>tr_status = ''scanned'', tr_ports = []\<rparr> results in
      case submit_ports e target ports futures of
        Inl err \<Rightarrow> (Inl err, results')
      | Inr futures' \<Rightarrow> submit_hosts e live_hosts ports results' futures')"

text \<open>
  The loop over the futures: \<open>future.result()\<close> re-raises what the probe raised;
  then the counter grows and the progress is written. The division raises on zero.
  The list returned holds the scanner after each write.
\<close>

fun await_futures ::
  "env \<Rightarrow> string \<Rightarrow> int \<Rightarrow> nat \<Rightarrow> (string \<times> int) list \<Rightarrow> nat \<Rightarrow> results_dict \<Rightarrow> scanner
   \<Rightarrow> (error + results_dict) \<times> scanner list" where
  "await_futures e scan_id timeout total_tasks [] completed_tasks results s = (Inr results, [])"
| "await_futures e scan_id timeout total_tasks ((target, port) # futures) completed_tasks results s =
     (case scan_port e target port timeout results of
        Inl err \<Rightarrow> (Inl err, [])
      | Inr results' \<Rightarrow>
          if total_tasks = 0 then (Inl ZeroDivisionError, [])
          else
            (let progress = (of_nat (Suc completed_tasks) / of_nat total_tasks) * 100;
                 s' = update_active scan_id (\<lambda>st. st\<lparr>st_progress := progress\<rparr>) s
             in case await_futures e scan_id timeout total_tasks futures (Suc completed_tasks) results' s' of
                  (r, trace) \<Rightarrow> (r, s' # trace)))"

text \<open>Lines 83 to 116 of \<open>_execute_scan\<close>: the denominator, discovery, submission, waiting.\<close>

definition run_probes ::
  "env \<Rightarrow> string \<Rightarrow> string list \<Rightarrow> int list \<Rightarrow> int \<Rightarrow> scanner
   \<Rightarrow> (error + results_dict) \<times> scanner list" where
  "run_probes e scan_id targets ports timeout s =
     (let total_tasks = length targets * length ports in
      case fault e Discovery of
        Some msg \<Rightarrow> (Inl (Fault msg), [])
      | None \<Rightarrow>
          (let live_hosts = discover_hosts e targets in
           case submit_hosts e live_hosts ports [] [] of
             (Inl err, results) \<Rightarrow> (Inl err, [])
           | (Inr futures, results) \<Rightarrow>
               await_futures e scan_id timeout total_tasks futures 0 results s))"

text \<open>
  Lines 118 to 138: anomaly detection, the four writes to the entry, the store of the
  results and the save to the file, which may raise after the writes before it.
\<close>

definition complete_scan ::
  "env \<Rightarrow> string \<Rightarrow> string list \<Rightarrow> int list \<Rightarrow> int \<Rightarrow> results_dict \<Rightarrow> scanner
   \<Rightarrow> error option \<times> scanner list" where
  "complete_scan e scan_id targets ports timeout results s =
     (case fault e Detect of
        Some msg \<Rightarrow> (Some (Fault msg), [])
      | None \<Rightarrow>
          (let start_time = clock_start e;
               end_time = clock_end e;
               r0 = \<lparr>sr_scan_id = scan_id, sr_start_time = start_time, sr_targets = targets,
                     sr_ports = ports, sr_timeout = timeout, sr_results = results,
                     sr_anomalies = None, sr_end_time = None, sr_duration = None\<rparr>;
               r = r0\<lparr>sr_anomalies := Some (detect r0), sr_end_time := Some end_time,
                      sr_duration := Some (end_time - start_time)\<rparr>;
               s1 = update_active scan_id (\<lambda>st. st\<lparr>st_status := ''completed''\<rparr>) s;
               s2 = update_active scan_id (\<lambda>st. st\<lparr>st_progress := 100\<rparr>) s1;
               s3 = update_active scan_id (\<lambda>st. st\<lparr>st_end_time := Some end_time\<rparr>) s2;
               s4 = update_active scan_id (\<lambda>st. st\<lparr>st_duration := Some (end_time - start_time)\<rparr>) s3;
               s5 = s4\<lparr>scan_results := (scan_results s4)(scan_id \<mapsto> r)\<rparr>
           in case fault e Save of
                Some msg \<Rightarrow> (Some (Fault msg), [s1, s2, s3, s4, s5])
              | None \<Rightarrow>
                  (None, [s1, s2, s3, s4, s5,
                          s5\<lparr>results_files := (results_files s5)(scan_id \<mapsto> r)\<rparr>])))"

text \<open>Lines 140 to 145: the handler of \<open>_execute_scan\<close>, two writes.\<close>

definition handle_error :: "string \<Rightarrow> error \<Rightarrow> scanner \<Rightarrow> scanner list" where
  "handle_error scan_id err s =
     (let s1 = update_active scan_id (\<lambda>st. st\<lparr>st_status := ''error''\<rparr>) s;
          s2 = update_active scan_id (\<lambda>st. st\<lparr>st_error := Some (str_error err)\<rparr>) s1
      in [s1, s2])"

text \<open>
  \<open>_execute_scan\<close>: the scanner as a poller can see it, at the start and after each
  write, in order. The last element is the scanner when the thread ends.
\<close>

definition execute_scan ::
  "env \<Rightarrow> string \<Rightarrow> string list \<Rightarrow> int list \<Rightarrow> int \<Rightarrow> scanner \<Rightarrow> scanner list" where
  "execute_scan e scan_id targets ports timeout s =
     (case run_probes e scan_id targets ports timeout s of
        (Inl err, trace) \<Rightarrow> s # trace @ handle_error scan_id err (last (s # trace))
      | (Inr results, trace) \<Rightarrow>
          (case complete_scan e scan_id targets ports timeout results (last (s # trace)) of
             (None, trace') \<Rightarrow> s # trace @ trace'
           | (Some err, trace') \<Rightarrow>
               s # trace @ trace' @ handle_error scan_id err (last (s # trace @ trace'))))"

definition run_scan ::
  "env \<Rightarrow> string \<Rightarrow> string list \<Rightarrow> int list \<Rightarrow> int \<Rightarrow> scanner \<Rightarrow> scanner list" where
  "run_scan e scan_id targets ports timeout s =
     execute_scan e scan_id targets ports timeout (start_scan e scan_id targets ports timeout s)"

text \<open>
  The two queries, in state-passing form: the value returned and the scanner after the
  call. A saved file is read back as the record that was saved.
\<close>

definition get_scan_status :: "scanner \<Rightarrow> string \<Rightarrow> status_view option \<times> scanner" where
  "get_scan_status s scan_id =
     (case active_scans s scan_id of
        Some st \<Rightarrow> (Some (Entry st), s)
      | None \<Rightarrow>
          (case scan_results s scan_id of
             Some r \<Rightarrow>
               (Some (Summary ''completed'' 100 (sr_start_time r) (sr_end_time r) (sr_duration r)), s)
           | None \<Rightarrow>
               (case results_files s scan_id of
                  Some r \<Rightarrow>
                    (Some (Summary ''completed'' 100 (sr_start_time r) (sr_end_time r)
                       (sr_duration r)), s)
                | None \<Rightarrow> (None, s))))"

definition get_scan_results :: "scanner \<Rightarrow> string \<Rightarrow> scan_result option \<times> scanner" where
  "get_scan_results s scan_id =
     (case scan_results s scan_id of
        Some r \<Rightarrow> (Some r, s)
      | None \<Rightarrow>
          (case results_files s scan_id of
             Some r \<Rightarrow> (Some r, s)
           | None \<Rightarrow> (None, s)))"

text \<open>
  The group of a pattern as the specification words it, read off the status of every
  port: the targets that have at least one port with status open and whose ports with
  status open, sorted, are the pattern, in the order of the results.
\<close>

definition pattern_members :: "results_dict \<Rightarrow> int list \<Rightarrow> string list" where
  "pattern_members results pat =
     map fst (filter (\<lambda>(t, td).
        (\<exists>(p, pd) \<in> set (tr_ports td). pr_status pd = ''open'') \<and>
        sort (map fst (filter (\<lambda>(p, pd). pr_status pd = ''open'') (tr_ports td))) = pat) results)"

section \<open>Notions used to state the behaviour of one execution\<close>

text \<open>
  The definitions of this section are not functions of the source: they name the values
  that the source's functions, defined above, are proved to produce.
\<close>

text \<open>
  The value one probe stores for a (target, port) pair: the body of \<open>_scan_port\<close>
  without the write, the handler's error entry when \<open>sr1\<close> raises.
\<close>

definition probe_value :: "env \<Rightarrow> string \<Rightarrow> int \<Rightarrow> int \<Rightarrow> port_result" where
  "probe_value e target port timeout =
     (case sr1 e target port timeout of
        Raised msg \<Rightarrow> error_result port msg
      | Returned response \<Rightarrow> port_status response port)"

text \<open>
  One finished future seen as a function on the results dictionary: the entry of the
  target gets the probe's value at the port; a target without an entry is left alone.
\<close>

definition write_result :: "env \<Rightarrow> int \<Rightarrow> string \<times> int \<Rightarrow> results_dict \<Rightarrow> results_dict" where
  "write_result e timeout = (\<lambda>(target, port) results.
     case map_of results target of
       None \<Rightarrow> results
     | Some tr \<Rightarrow>
         AList.update target
           (tr\<lparr>tr_ports := AList.update port (probe_value e target port timeout) (tr_ports tr)\<rparr>)
           results)"

text \<open>
  Line 112: \<open>(completed_tasks / total_tasks) * 100\<close>, Python's true division.
\<close>

definition progress_at :: "nat \<Rightarrow> nat \<Rightarrow> rat" where
  "progress_at total_tasks k = (of_nat k / of_nat total_tasks) * 100"

text \<open>
  Line 93 for every live host: \<open>results['results'][target] = {'status': 'scanned', 'ports': {}}\<close>.
\<close>

definition init_targets :: "string list \<Rightarrow> results_dict \<Rightarrow> results_dict" where
  "init_targets live results =
     fold (\<lambda>t. AList.update t \<lparr>tr_status = ''scanned'', tr_ports = []\<rparr>) live results"

text \<open>
  Lines 115 and 116 after the k-th future: the progress write to the scan's entry.
\<close>

definition set_progress :: "string \<Rightarrow> nat \<Rightarrow> nat \<Rightarrow> scanner \<Rightarrow> scanner" where
  "set_progress scan_id total_tasks k s =
     update_active scan_id (\<lambda>st. st\<lparr>st_progress := progress_at total_tasks k\<rparr>) s"

text \<open>
  The futures of lines 92 to 106 in submission order: every port of the first live host,
  then every port of the second, and so on.
\<close>

definition futures_of :: "string list \<Rightarrow> int list \<Rightarrow> (string \<times> int) list" where
  "futures_of live ports = concat (map (\<lambda>t. map (Pair t) ports) live)"

text \<open>
  The entry after each of the two writes of the handler (lines 144 and 145).
\<close>

definition error_entries :: "scan_state \<Rightarrow> string \<Rightarrow> scan_state list" where
  "error_entries v msg = [v\<lparr>st_status := ''error''\<rparr>, v\<lparr>st_status := ''error'', st_error := Some msg\<rparr>]"

text \<open>
  The entry after each of the four writes of lines 127 to 130, and after line 133, which
  leaves it as it is.
\<close>

definition done_entries :: "env \<Rightarrow> scan_state \<Rightarrow> scan_state list" where
  "done_entries e v =
     (let v1 = v\<lparr>st_status := ''completed''\<rparr>;
          v2 = v1\<lparr>st_progress := 100\<rparr>;
          v3 = v2\<lparr>st_end_time := Some (clock_end e)\<rparr>;
          v4 = v3\<lparr>st_duration := Some (clock_end e - clock_start e)\<rparr>
      in [v1, v2, v3, v4, v4])"

text \<open>
  The entry at the start of the execution and after each of the first n progress writes.
\<close>

definition progress_entries :: "scan_state \<Rightarrow> nat \<Rightarrow> nat \<Rightarrow> scan_state list" where
  "progress_entries v tot n = v # map (\<lambda>k. v\<lparr>st_progress := progress_at tot k\<rparr>) [1..<Suc n]"

text \<open>
  The scan's entry in every state of a trace.
\<close>

definition entries :: "scanner list \<Rightarrow> string \<Rightarrow> scan_state option list" where
  "entries tr scan_id = map (\<lambda>x. active_scans x scan_id) tr"

text \<open>
  The results dictionary as it is stored by line 133: the collected results, the
  anomalies, the end time and the duration.
\<close>

definition final_record ::
  "env \<Rightarrow> string \<Rightarrow> string list \<Rightarrow> int list \<Rightarrow> int \<Rightarrow> results_dict \<Rightarrow> scan_result" where
  "final_record e scan_id targets ports tm r =
     (let r0 = \<lparr>sr_scan_id = scan_id, sr_start_time = clock_start e, sr_targets = targets,
                sr_ports = ports, sr_timeout = tm, sr_results = r,
                sr_anomalies = None, sr_end_time = None, sr_duration = None\<rparr>
      in r0\<lparr>sr_anomalies := Some (detect r0), sr_end_time := Some (clock_end e),
             sr_duration := Some (clock_end e - clock_start e)\<rparr>)"

text \<open>
  How an execution ends: the handler ran before anything was stored, the scan was stored
  and saved, or the handler ran after the record was stored because saving failed.
\<close>

datatype ending = Failed string | Finished | Unsaved string

text \<open>
  The entries written after the last progress write, for each ending.
\<close>

definition tail_entries :: "env \<Rightarrow> scan_state \<Rightarrow> ending \<Rightarrow> scan_state list" where
  "tail_entries e v en =
     (case en of
        Failed msg \<Rightarrow> error_entries v msg
      | Finished \<Rightarrow> done_entries e v @ [last (done_entries e v)]
      | Unsaved msg \<Rightarrow> done_entries e v @ error_entries (last (done_entries e v)) msg)"

text \<open>
  The ending of an execution, read off the probes' outcome and the injected faults.
\<close>

definition ending_of ::
  "env \<Rightarrow> string \<Rightarrow> string list \<Rightarrow> int list \<Rightarrow> int \<Rightarrow> scanner \<Rightarrow> ending" where
  "ending_of e scan_id targets ports tm s =
     (case fst (run_probes e scan_id targets ports tm s) of
        Inl err \<Rightarrow> Failed (str_error err)
      | Inr r \<Rightarrow>
          (case fault e Detect of
             Some msg \<Rightarrow> Failed msg
           | None \<Rightarrow> (case fault e Save of Some msg \<Rightarrow> Unsaved msg | None \<Rightarrow> Finished)))"

text \<open>
  The entry that \<open>start_scan\<close> registers (lines 42 to 50).
\<close>

definition initial_entry :: "env \<Rightarrow> string list \<Rightarrow> int list \<Rightarrow> int \<Rightarrow> scan_state" where
  "initial_entry e targets ports tm =
     \<lparr>st_status = ''running'', st_start_time = clock_request e, st_progress = 0,
      st_targets = targets, st_ports = ports, st_timeout = tm, st_results = [],
      st_end_time = None, st_duration = None, st_error = None\<rparr>"

section \<open>Example inputs\<close>

text \<open>Concrete worlds and scan results at which the theorems below are evaluated.\<close>

definition env_raising :: env where
  "env_raising =
     \<lparr>srp = (\<lambda>t. Raised ''Operation not permitted''),
      sr1 = (\<lambda>t p tm. if t = ''8.8.8.8'' then Raised ''Network is unreachable'' else Returned None),
      fault = (\<lambda>s. None), clock_request = 0, clock_start = 0, clock_end = 1\<rparr>"

definition env_silent_arp :: env where
  "env_silent_arp =
     \<lparr>srp = (\<lambda>t. Returned []),
      sr1 = (\<lambda>t p tm. Returned (Some (Packet (Some 0x12)))),
      fault = (\<lambda>s. None), clock_request = 0, clock_start = 0, clock_end = 1\<rparr>"

definition probed_target :: "(int \<times> string) list \<Rightarrow> target_result" where
  "probed_target ps =
     \<lparr>tr_status = ''scanned'',
      tr_ports = map (\<lambda>(p, st). (p, \<lparr>pr_status = st, pr_service = guess_service p, pr_error = None\<rparr>)) ps\<rparr>"

definition results_of :: "results_dict \<Rightarrow> scan_result" where
  "results_of r =
     \<lparr>sr_scan_id = ''scan-1'', sr_start_time = 0, sr_targets = map fst r, sr_ports = [],
      sr_timeout = 5, sr_results = r, sr_anomalies = None, sr_end_time = None,
      sr_duration = None\<rparr>"

text \<open>
  A small network: 10.0.0.5 answers the ARP request and no other target does; port 80
  answers SYN+ACK, port 22 answers RST, the probe of port 23 raises, every other port is
  silent. Nothing else fails; the three variants make one stage fail.
\<close>

definition env_lab :: env where
  "env_lab =
     \<lparr>srp = (\<lambda>t. if t = ''10.0.0.5'' then Returned [Packet None] else Returned []),
      sr1 = (\<lambda>t p tm.
         if p = 80 then Returned (Some (Packet (Some 0x12)))
         else if p = 22 then Returned (Some (Packet (Some 0x04)))
         else if p = 23 then Raised ''Network is unreachable''
         else Returned None),
      fault = (\<lambda>s. None), clock_request = 0, clock_start = 1, clock_end = 3\<rparr>"

definition env_detect_fails :: env where
  "env_detect_fails = env_lab\<lparr>fault := (\<lambda>s. if s = Detect then Some ''detector failed'' else None)\<rparr>"

definition env_discovery_fails :: env where
  "env_discovery_fails = env_lab\<lparr>fault := (\<lambda>s. if s = Discovery then Some ''tracer failed'' else None)\<rparr>"

definition env_save_fails :: env where
  "env_save_fails = env_lab\<lparr>fault := (\<lambda>s. if s = Save then Some ''disk full'' else None)\<rparr>"

section \<open>Facts about discovery\<close>

lemma discover_loop_filter:
  "discover_loop e targets live = live @ filter (host_is_live e) targets"
  by (induction targets arbitrary: live) simp_all

lemma discover_hosts_filter: "discover_hosts e targets = filter (host_is_live e) targets"
  by (simp add: discover_hosts_def discover_loop_filter)

lemma startswith_prefix: "startswith s p \<longleftrightarrow> prefix p s"
proof
  assume "startswith s p"
  then have "s = p @ drop (length p) s"
    by (metis startswith_def append_take_drop_id)
  then show "prefix p s"
    by (metis prefixI)
next
  assume "prefix p s"
  then show "startswith s p"
    by (auto simp: startswith_def prefix_def)
qed

text \<open>
  C7. Host discovery returns a subset of its input targets (in fact the input with the
  targets that were not found live removed, in the input's order), and a target whose
  liveness probe raises is in the returned sequence: the ARP request for a target the
  prefix test calls local, the SYN segment to port 80 for any other.
\<close>

theorem discover_hosts_subset_fail_open:
  "set (discover_hosts e targets) \<subseteq> set targets \<and>
   subseq (discover_hosts e targets) targets \<and>
   (\<forall>t \<in> set targets.
      (if is_ip_in_local_network t then (\<exists>msg. srp e t = Raised msg)
       else (\<exists>msg. sr1 e t 80 1 = Raised msg))
      \<longrightarrow> t \<in> set (discover_hosts e targets))"
  by (auto simp: discover_hosts_filter host_is_live_def)

theorem discover_hosts_subset_fail_open_witness:
  "discover_hosts env_raising [''10.0.0.5'', ''8.8.8.8'', ''1.1.1.1''] = [''10.0.0.5'', ''8.8.8.8'']
   \<and> is_ip_in_local_network ''10.0.0.5'' \<and> srp env_raising ''10.0.0.5'' = Raised ''Operation not permitted''
   \<and> \<not> is_ip_in_local_network ''8.8.8.8'' \<and> sr1 env_raising ''8.8.8.8'' 80 1 = Raised ''Network is unreachable''
   \<and> ''10.0.0.5'' \<in> set (discover_hosts env_raising [''10.0.0.5'', ''8.8.8.8'', ''1.1.1.1''])
   \<and> ''8.8.8.8'' \<in> set (discover_hosts env_raising [''10.0.0.5'', ''8.8.8.8'', ''1.1.1.1''])"
  using discover_hosts_subset_fail_open [of env_raising "[''10.0.0.5'', ''8.8.8.8'', ''1.1.1.1'']"]
  by (simp add: discover_hosts_def host_is_live_def is_ip_in_local_network_def startswith_def
      env_raising_def)

text \<open>
  C10. The local-network test is a string-prefix check and nothing else: a target is
  local exactly when it starts with 192.168., 10. or 172.; so every target starting
  with 172. is probed by ARP, whatever the SYN probe would answer, and is left out of
  the live hosts when the ARP request returns no answer. 172.217.0.1 lies outside
  172.16.0.0/12 and is treated so.
\<close>

theorem local_network_is_prefix_check:
  "(is_ip_in_local_network ip \<longleftrightarrow>
      prefix ''192.168.'' ip \<or> prefix ''10.'' ip \<or> prefix ''172.'' ip) \<and>
   (prefix ''172.'' t \<and> srp e t = Returned [] \<longrightarrow>
      host_is_live e t = False \<and> t \<notin> set (discover_hosts e targets)) \<and>
   is_ip_in_local_network ''172.217.0.1''"
  by (auto simp: is_ip_in_local_network_def startswith_prefix host_is_live_def
      discover_hosts_filter)

theorem local_network_is_prefix_check_witness:
  "prefix ''172.'' ''172.217.0.1'' \<and> srp env_silent_arp ''172.217.0.1'' = Returned [] \<and>
   sr1 env_silent_arp ''172.217.0.1'' 80 1 = Returned (Some (Packet (Some 0x12))) \<and>
   discover_hosts env_silent_arp [''172.217.0.1'', ''8.8.8.8''] = [''8.8.8.8''] \<and>
   ''172.217.0.1'' \<notin> set (discover_hosts env_silent_arp [''172.217.0.1'', ''8.8.8.8''])"
  using local_network_is_prefix_check
    [of "''172.217.0.1''" "''172.217.0.1''" env_silent_arp "[''172.217.0.1'', ''8.8.8.8'']"]
  by (simp add: discover_hosts_def host_is_live_def is_ip_in_local_network_def startswith_def
      env_silent_arp_def)

text \<open>
  C1. The probe of the orchestrator path at a reply carrying RST+ACK (flags 0x14): the
  first test \<open>flags & 0x12\<close> is not zero, since the ACK bit is shared, so the port is
  reported open; the same happens for a bare ACK (0x10). The source's other classifier
  reports the RST+ACK reply closed.
\<close>

theorem scan_port_rst_ack_reported_open:
  "pr_status (port_status (Some (Packet (Some 0x14))) 22) = ''open'' \<and>
   pr_status (port_status (Some (Packet (Some 0x10))) 22) = ''open'' \<and>
   pr_status (port_status (Some (Packet (Some 0x12))) 22) = ''open'' \<and>
   pr_status (port_status None 22) = ''closed'' \<and>
   scapy_status (Some (Packet (Some 0x14))) = ''closed'' \<and>
   scan_port
     (env_silent_arp\<lparr>sr1 := (\<lambda>t p tm. Returned (Some (Packet (Some 0x14))))\<rparr>)
     ''10.0.0.5'' 22 5 [(''10.0.0.5'', \<lparr>tr_status = ''scanned'', tr_ports = []\<rparr>)]
   = Inr [(''10.0.0.5'', \<lparr>tr_status = ''scanned'',
            tr_ports = [(22, \<lparr>pr_status = ''open'', pr_service = ''SSH'', pr_error = None\<rparr>)]\<rparr>)]"
  by (simp add: port_status_def scapy_status_def scan_port_def set_port_result_def
      guess_service_def common_ports_def env_silent_arp_def)

section \<open>Facts about the anomaly rules\<close>






lemma upd_new: "k \<notin> fst ` set al \<Longrightarrow> AList.update k v al = al @ [(k, v)]"
  by (induction al) auto

lemma two_fold:
  "distinct (map fst results) \<Longrightarrow> fst ` set results \<inter> fst ` set d = {} \<Longrightarrow>
   fold (\<lambda>(target, target_data) d.
            let open_ports = open_ports_of target_data in
            if open_ports \<noteq> [] then AList.update target open_ports d else d) results d
   = d @ map (\<lambda>(t, td). (t, open_ports_of td)) (filter (\<lambda>(t, td). open_ports_of td \<noteq> []) results)"
proof (induction results arbitrary: d)
  case Nil
  then show ?case by simp
next
  case (Cons a results)
  obtain t td where a: "a = (t, td)" by (cases a)
  from Cons.prems have t_new: "t \<notin> fst ` set d" and t_rest: "t \<notin> fst ` set results"
    and dist: "distinct (map fst results)" and disj: "fst ` set results \<inter> fst ` set d = {}"
    by (auto simp: a)
  show ?case
  proof (cases "open_ports_of td = []")
    case True
    then show ?thesis using Cons.IH [OF dist disj] by (simp add: a)
  next
    case False
    have disj': "fst ` set results \<inter> fst ` set (d @ [(t, open_ports_of td)]) = {}"
      using disj t_rest by auto
    show ?thesis using Cons.IH [OF dist disj'] False t_new
      by (simp add: a upd_new)
  qed
qed

lemma filter_key:
  "distinct (map fst al) \<Longrightarrow>
   filter (\<lambda>(k, v). k = a) al = (case map_of al a of None \<Rightarrow> [] | Some v \<Rightarrow> [(a, v)])"
proof (induction al)
  case Nil
  then show ?case by simp
next
  case (Cons x al)
  obtain k v where x: "x = (k, v)" by (cases x)
  show ?case
  proof (cases "k = a")
    case True
    with Cons.prems have "a \<notin> fst ` set al" by (auto simp: x)
    then have "filter (\<lambda>(k, v). k = a) al = []"
      by (force simp: filter_empty_conv)
    then show ?thesis using True by (simp add: x)
  next
    case False
    then show ?thesis using Cons by (simp add: x)
  qed
qed

lemma add_to_pattern_map_of:
  "map_of (add_to_pattern (t, ops) pp) =
   (map_of pp)(sort ops \<mapsto> (case map_of pp (sort ops) of None \<Rightarrow> [] | Some ts \<Rightarrow> ts) @ [t])"
  by (auto simp: add_to_pattern_def Let_def map_of_map_entry update_conv' fun_eq_iff split: option.splits)

lemma add_to_pattern_distinct:
  "distinct (map fst pp) \<Longrightarrow> distinct (map fst (add_to_pattern (t, ops) pp))"
  by (simp add: add_to_pattern_def Let_def distinct_map_entry distinct_update)

lemma fold_add_to_pattern:
  "distinct (map fst pp) \<Longrightarrow>
   distinct (map fst (fold add_to_pattern two pp)) \<and>
   map_of (fold add_to_pattern two pp) pat =
     (let ms = map fst (filter (\<lambda>(t, ops). sort ops = pat) two) in
      if ms = [] then map_of pp pat
      else Some ((case map_of pp pat of None \<Rightarrow> [] | Some ts \<Rightarrow> ts) @ ms))"
proof (induction two arbitrary: pp)
  case Nil
  then show ?case by simp
next
  case (Cons a two)
  obtain t ops where a: "a = (t, ops)" by (cases a)
  have d: "distinct (map fst (add_to_pattern (t, ops) pp))"
    using Cons.prems by (rule add_to_pattern_distinct)
  show ?case
    using Cons.IH [OF d]
    by (auto simp: a add_to_pattern_map_of Let_def split: option.splits)
qed

lemma group_by_pattern_map_of:
  "map_of (group_by_pattern two) pat =
     (let ms = map fst (filter (\<lambda>(t, ops). sort ops = pat) two) in
      if ms = [] then None else Some ms)"
  using fold_add_to_pattern [of "[]" two pat] by (simp add: group_by_pattern_def Let_def)

lemma group_by_pattern_distinct: "distinct (map fst (group_by_pattern two))"
  using fold_add_to_pattern [of "[]" two] by (simp add: group_by_pattern_def)

lemma targets_with_open_ports_eq:
  "distinct (map fst results) \<Longrightarrow>
   targets_with_open_ports results =
     map (\<lambda>(t, td). (t, open_ports_of td)) (filter (\<lambda>(t, td). open_ports_of td \<noteq> []) results)"
  using two_fold [of results "[]"] by (simp add: targets_with_open_ports_def)

lemma members_two:
  "map fst (filter (\<lambda>(t, ops). sort ops = pat)
      (map (\<lambda>(t, td). (t, open_ports_of td)) (filter (\<lambda>(t, td). open_ports_of td \<noteq> []) results)))
   = pattern_members results pat"
  by (induction results) (auto simp: pattern_members_def open_ports_of_def filter_empty_conv)

lemma filter_concat_findings:
  "filter (\<lambda>f. f_ports f = Some pat)
     (concat (map (\<lambda>(port_pattern, targets).
          if length targets > 1 \<and> length port_pattern > 2
          then [pattern_finding port_pattern targets]
          else []) pp))
   = concat (map (\<lambda>(port_pattern, targets).
          if length targets > 1 \<and> length port_pattern > 2
          then [pattern_finding port_pattern targets]
          else []) (filter (\<lambda>(k, v). k = pat) pp))"
  by (induction pp) (auto simp: pattern_finding_def)

lemma pattern_findings_for:
  assumes "distinct (map fst (sr_results sr))"
  shows "filter (\<lambda>f. f_ports f = Some pat) (check_unusual_network_patterns sr) =
     (if length (pattern_members (sr_results sr) pat) > 1 \<and> length pat > 2
      then [pattern_finding pat (pattern_members (sr_results sr) pat)] else [])"
proof -
  let ?two = "targets_with_open_ports (sr_results sr)"
  let ?ms = "pattern_members (sr_results sr) pat"
  have two: "?two = map (\<lambda>(t, td). (t, open_ports_of td))
        (filter (\<lambda>(t, td). open_ports_of td \<noteq> []) (sr_results sr))"
    using assms by (rule targets_with_open_ports_eq)
  have ms: "map fst (filter (\<lambda>(t, ops). sort ops = pat) ?two) = ?ms"
    by (simp only: two members_two)
  have len: "length ?ms \<le> length ?two"
    unfolding ms [symmetric] by (simp add: le_trans [OF length_filter_le])
  have look: "map_of (group_by_pattern ?two) pat = (if ?ms = [] then None else Some ?ms)"
    using group_by_pattern_map_of [of ?two pat] by (simp only: ms Let_def)
  have sel: "filter (\<lambda>(k, v). k = pat) (group_by_pattern ?two) =
      (if ?ms = [] then [] else [(pat, ?ms)])"
    using filter_key [OF group_by_pattern_distinct, of pat ?two] by (simp add: look)
  show ?thesis
  proof (cases "length ?two > 1")
    case True
    then have "check_unusual_network_patterns sr =
        concat (map (\<lambda>(port_pattern, targets).
          if length targets > 1 \<and> length port_pattern > 2
          then [pattern_finding port_pattern targets]
          else []) (group_by_pattern ?two))"
      by (simp add: check_unusual_network_patterns_def Let_def)
    then have "filter (\<lambda>f. f_ports f = Some pat) (check_unusual_network_patterns sr) =
        concat (map (\<lambda>(port_pattern, targets).
          if length targets > 1 \<and> length port_pattern > 2
          then [pattern_finding port_pattern targets]
          else []) (filter (\<lambda>(k, v). k = pat) (group_by_pattern ?two)))"
      by (simp only: filter_concat_findings)
    also have "\<dots> = (if length ?ms > 1 \<and> length pat > 2
        then [pattern_finding pat ?ms] else [])"
      unfolding sel by auto
    finally show ?thesis .
  next
    case False
    then have "check_unusual_network_patterns sr = []"
      by (simp add: check_unusual_network_patterns_def Let_def)
    moreover have "\<not> length ?ms > 1" using False len by linarith
    ultimately show ?thesis by simp
  qed
qed




lemma combination_origin:
  assumes "f \<in> set (check_unusual_port_combinations sr)"
  shows "\<exists>target td combo description.
           (target, td) \<in> set (sr_results sr) \<and>
           (combo, description) \<in> set suspicious_combinations \<and>
           f = combination_finding target (filter (\<lambda>p. p \<in> set (open_ports_of td)) combo) description \<and>
           2 \<le> length (filter (\<lambda>p. p \<in> set (open_ports_of td)) combo)"
  using assms unfolding check_unusual_port_combinations_def Let_def
  by (fastforce split: if_splits)

lemma type_of_combinations:
  "f \<in> set (check_unusual_port_combinations sr) \<Longrightarrow> f_type f = ''unusual_port_combination''"
  using combination_origin [of f sr] by (auto simp: combination_finding_def)

lemma type_of_vulnerabilities:
  "f \<in> set (check_potential_vulnerabilities sr) \<Longrightarrow> f_type f = ''potential_vulnerability''"
  unfolding check_potential_vulnerabilities_def
  by (auto split: if_splits)

lemma type_of_patterns:
  "f \<in> set (check_unusual_network_patterns sr) \<Longrightarrow> f_type f = ''identical_port_pattern''"
  unfolding check_unusual_network_patterns_def Let_def
  by (auto simp: pattern_finding_def split: if_splits)

lemma filter_all: "(\<And>x. x \<in> set xs \<Longrightarrow> P x) \<Longrightarrow> filter P xs = xs"
  by (induction xs) auto

lemma filter_none: "(\<And>x. x \<in> set xs \<Longrightarrow> \<not> P x) \<Longrightarrow> filter P xs = []"
  by (induction xs) auto


lemma detect_patterns:
  "filter (\<lambda>f. f_type f = ''identical_port_pattern'') (detect sr) =
   check_unusual_network_patterns sr"
proof -
  have a: "filter (\<lambda>f. f_type f = ''identical_port_pattern'') (check_unusual_port_combinations sr) = []"
    by (rule filter_none) (auto dest: type_of_combinations)
  have b: "filter (\<lambda>f. f_type f = ''identical_port_pattern'') (check_potential_vulnerabilities sr) = []"
    by (rule filter_none) (auto dest: type_of_vulnerabilities)
  have c: "filter (\<lambda>f. f_type f = ''identical_port_pattern'') (check_unusual_network_patterns sr) =
      check_unusual_network_patterns sr"
    by (rule filter_all) (rule type_of_patterns)
  show ?thesis by (simp add: detect_def a b c)
qed



text \<open>
  C9. Anomaly rule 3. Group the targets that have at least one port with status open by
  the sorted tuple of their ports with status open. For every pattern, the findings of
  the rule that carry the pattern are exactly one finding, of type
  identical_port_pattern, severity low and confidence 0.7, listing all the members of the
  group and the pattern, when the group has more than one target and the pattern more
  than two ports, and none otherwise; and the findings of that type in the detector's
  output are the findings of the rule. So three targets sharing (80, 443, 8080) yield one
  finding listing the three, and two targets sharing (80, 443) yield none, whatever
  closed ports they have.
\<close>

theorem identical_port_pattern_rule:
  assumes "distinct (map fst (sr_results sr))"
  shows "filter (\<lambda>f. f_ports f = Some pat) (check_unusual_network_patterns sr) =
           (if 1 < length (map fst (filter (\<lambda>(t, td).
                   (\<exists>(p, pd) \<in> set (tr_ports td). pr_status pd = ''open'') \<and>
                   sort (map fst (filter (\<lambda>(p, pd). pr_status pd = ''open'') (tr_ports td))) = pat)
                 (sr_results sr))) \<and> 2 < length pat
            then [pattern_finding pat (map fst (filter (\<lambda>(t, td).
                   (\<exists>(p, pd) \<in> set (tr_ports td). pr_status pd = ''open'') \<and>
                   sort (map fst (filter (\<lambda>(p, pd). pr_status pd = ''open'') (tr_ports td))) = pat)
                 (sr_results sr)))]
            else []) \<and>
         filter (\<lambda>f. f_type f = ''identical_port_pattern'') (detect sr) =
           check_unusual_network_patterns sr \<and>
         f_type (pattern_finding pat ms) = ''identical_port_pattern'' \<and>
         f_severity (pattern_finding pat ms) = ''low'' \<and>
         f_confidence (pattern_finding pat ms) = 7 / 10 \<and>
         f_targets (pattern_finding pat ms) = Some ms \<and>
         f_ports (pattern_finding pat ms) = Some pat"
proof -
  have "filter (\<lambda>f. f_ports f = Some pat) (check_unusual_network_patterns sr) =
     (if length (pattern_members (sr_results sr) pat) > 1 \<and> length pat > 2
      then [pattern_finding pat (pattern_members (sr_results sr) pat)] else [])"
    using assms by (rule pattern_findings_for)
  then have a: "filter (\<lambda>f. f_ports f = Some pat) (check_unusual_network_patterns sr) =
           (if 1 < length (map fst (filter (\<lambda>(t, td).
                   (\<exists>(p, pd) \<in> set (tr_ports td). pr_status pd = ''open'') \<and>
                   sort (map fst (filter (\<lambda>(p, pd). pr_status pd = ''open'') (tr_ports td))) = pat)
                 (sr_results sr))) \<and> 2 < length pat
            then [pattern_finding pat (map fst (filter (\<lambda>(t, td).
                   (\<exists>(p, pd) \<in> set (tr_ports td). pr_status pd = ''open'') \<and>
                   sort (map fst (filter (\<lambda>(p, pd). pr_status pd = ''open'') (tr_ports td))) = pat)
                 (sr_results sr)))]
            else [])"
    unfolding pattern_members_def .
  have b: "filter (\<lambda>f. f_type f = ''identical_port_pattern'') (detect sr) =
           check_unusual_network_patterns sr"
    by (rule detect_patterns)
  show ?thesis using a b by (simp add: pattern_finding_def)
qed

theorem identical_port_pattern_rule_witness:
  "distinct (map fst (sr_results (results_of
      [(''10.0.0.1'', probed_target [(8080, ''open''), (80, ''open''), (22, ''closed''), (443, ''open'')]),
       (''10.0.0.2'', probed_target [(443, ''open''), (80, ''open''), (8080, ''open'')]),
       (''10.0.0.3'', probed_target [(21, ''closed''), (80, ''open''), (443, ''open''), (8080, ''open'')]),
       (''10.0.0.4'', probed_target [(80, ''open''), (443, ''open''), (8080, ''closed'')])]))) \<and>
   check_unusual_network_patterns (results_of
      [(''10.0.0.1'', probed_target [(8080, ''open''), (80, ''open''), (22, ''closed''), (443, ''open'')]),
       (''10.0.0.2'', probed_target [(443, ''open''), (80, ''open''), (8080, ''open'')]),
       (''10.0.0.3'', probed_target [(21, ''closed''), (80, ''open''), (443, ''open''), (8080, ''open'')]),
       (''10.0.0.4'', probed_target [(80, ''open''), (443, ''open''), (8080, ''closed'')])]) =
     [pattern_finding [80, 443, 8080] [''10.0.0.1'', ''10.0.0.2'', ''10.0.0.3'']] \<and>
   filter (\<lambda>f. f_type f = ''identical_port_pattern'') (detect (results_of
      [(''10.0.0.1'', probed_target [(8080, ''open''), (80, ''open''), (22, ''closed''), (443, ''open'')]),
       (''10.0.0.2'', probed_target [(443, ''open''), (80, ''open''), (8080, ''open'')]),
       (''10.0.0.3'', probed_target [(21, ''closed''), (80, ''open''), (443, ''open''), (8080, ''open'')]),
       (''10.0.0.4'', probed_target [(80, ''open''), (443, ''open''), (8080, ''closed'')])])) =
     [pattern_finding [80, 443, 8080] [''10.0.0.1'', ''10.0.0.2'', ''10.0.0.3'']] \<and>
   map fst (filter (\<lambda>(t, td).
          (\<exists>(p, pd) \<in> set (tr_ports td). pr_status pd = ''open'') \<and>
          sort (map fst (filter (\<lambda>(p, pd). pr_status pd = ''open'') (tr_ports td))) = [80, 443, 8080])
        (sr_results (results_of
      [(''10.0.0.1'', probed_target [(8080, ''open''), (80, ''open''), (22, ''closed''), (443, ''open'')]),
       (''10.0.0.2'', probed_target [(443, ''open''), (80, ''open''), (8080, ''open'')]),
       (''10.0.0.3'', probed_target [(21, ''closed''), (80, ''open''), (443, ''open''), (8080, ''open'')]),
       (''10.0.0.4'', probed_target [(80, ''open''), (443, ''open''), (8080, ''closed'')])]))) = [''10.0.0.1'', ''10.0.0.2'', ''10.0.0.3''] \<and>
   filter (\<lambda>f. f_ports f = Some [80, 443, 8080]) (check_unusual_network_patterns (results_of
      [(''10.0.0.1'', probed_target [(8080, ''open''), (80, ''open''), (22, ''closed''), (443, ''open'')]),
       (''10.0.0.2'', probed_target [(443, ''open''), (80, ''open''), (8080, ''open'')]),
       (''10.0.0.3'', probed_target [(21, ''closed''), (80, ''open''), (443, ''open''), (8080, ''open'')]),
       (''10.0.0.4'', probed_target [(80, ''open''), (443, ''open''), (8080, ''closed'')])])) =
     [pattern_finding [80, 443, 8080] [''10.0.0.1'', ''10.0.0.2'', ''10.0.0.3'']] \<and>
   map fst (filter (\<lambda>(t, td).
          (\<exists>(p, pd) \<in> set (tr_ports td). pr_status pd = ''open'') \<and>
          sort (map fst (filter (\<lambda>(p, pd). pr_status pd = ''open'') (tr_ports td))) = [80, 443])
        (sr_results (results_of
      [(''10.0.0.1'', probed_target [(443, ''open''), (80, ''open''), (8080, ''closed'')]),
       (''10.0.0.2'', probed_target [(80, ''open''), (443, ''open''), (8080, ''closed'')])]))) = [''10.0.0.1'', ''10.0.0.2''] \<and>
   filter (\<lambda>f. f_ports f = Some [80, 443]) (check_unusual_network_patterns (results_of
      [(''10.0.0.1'', probed_target [(443, ''open''), (80, ''open''), (8080, ''closed'')]),
       (''10.0.0.2'', probed_target [(80, ''open''), (443, ''open''), (8080, ''closed'')])])) = [] \<and>
   distinct (map fst (sr_results (results_of
      [(''10.0.0.1'', probed_target [(443, ''open''), (80, ''open''), (8080, ''closed'')]),
       (''10.0.0.2'', probed_target [(80, ''open''), (443, ''open''), (8080, ''closed'')])]))) \<and>
   check_unusual_network_patterns (results_of
      [(''10.0.0.1'', probed_target [(443, ''open''), (80, ''open''), (8080, ''closed'')]),
       (''10.0.0.2'', probed_target [(80, ''open''), (443, ''open''), (8080, ''closed'')])]) = []"
proof -
  let ?r1 = "results_of
      [(''10.0.0.1'', probed_target [(8080, ''open''), (80, ''open''), (22, ''closed''), (443, ''open'')]),
       (''10.0.0.2'', probed_target [(443, ''open''), (80, ''open''), (8080, ''open'')]),
       (''10.0.0.3'', probed_target [(21, ''closed''), (80, ''open''), (443, ''open''), (8080, ''open'')]),
       (''10.0.0.4'', probed_target [(80, ''open''), (443, ''open''), (8080, ''closed'')])]"
  let ?r2 = "results_of
      [(''10.0.0.1'', probed_target [(443, ''open''), (80, ''open''), (8080, ''closed'')]),
       (''10.0.0.2'', probed_target [(80, ''open''), (443, ''open''), (8080, ''closed'')])]"
  have d1: "distinct (map fst (sr_results ?r1))" by (simp add: results_of_def)
  have d2: "distinct (map fst (sr_results ?r2))" by (simp add: results_of_def)
  have e1: "check_unusual_network_patterns ?r1 =
      [pattern_finding [80, 443, 8080] [''10.0.0.1'', ''10.0.0.2'', ''10.0.0.3'']]"
    by code_simp
  have e2: "check_unusual_network_patterns ?r2 = []"
    by code_simp
  from identical_port_pattern_rule [OF d1] have
    "filter (\<lambda>f. f_type f = ''identical_port_pattern'') (detect ?r1) =
       check_unusual_network_patterns ?r1"
    by blast
  then have t1: "filter (\<lambda>f. f_type f = ''identical_port_pattern'') (detect ?r1) =
      [pattern_finding [80, 443, 8080] [''10.0.0.1'', ''10.0.0.2'', ''10.0.0.3'']]"
    by (simp only: e1)
  have m1: "map fst (filter (\<lambda>(t, td).
          (\<exists>(p, pd) \<in> set (tr_ports td). pr_status pd = ''open'') \<and>
          sort (map fst (filter (\<lambda>(p, pd). pr_status pd = ''open'') (tr_ports td))) = [80, 443, 8080])
        (sr_results ?r1)) = [''10.0.0.1'', ''10.0.0.2'', ''10.0.0.3'']"
    by code_simp
  have m2: "map fst (filter (\<lambda>(t, td).
          (\<exists>(p, pd) \<in> set (tr_ports td). pr_status pd = ''open'') \<and>
          sort (map fst (filter (\<lambda>(p, pd). pr_status pd = ''open'') (tr_ports td))) = [80, 443])
        (sr_results ?r2)) = [''10.0.0.1'', ''10.0.0.2'']"
    by code_simp
  have f1: "filter (\<lambda>f. f_ports f = Some [80, 443, 8080]) (check_unusual_network_patterns ?r1) =
      [pattern_finding [80, 443, 8080] [''10.0.0.1'', ''10.0.0.2'', ''10.0.0.3'']]"
    using identical_port_pattern_rule [OF d1, of "[80, 443, 8080]", THEN conjunct1]
    unfolding m1 by simp
  have f2: "filter (\<lambda>f. f_ports f = Some [80, 443]) (check_unusual_network_patterns ?r2) = []"
    using identical_port_pattern_rule [OF d2, of "[80, 443]", THEN conjunct1]
    unfolding m2 by simp
  show ?thesis by (intro conjI d1 e1 t1 m1 f1 m2 f2 d2 e2)
qed

section \<open>Facts about the scan lifecycle\<close>

lemma active_update_active [simp]:
  "active_scans (update_active scan_id f s) scan_id = map_option f (active_scans s scan_id)"
  by (simp add: update_active_def split: option.splits)

lemma active_update_active_other [simp]:
  "k \<noteq> scan_id \<Longrightarrow> active_scans (update_active scan_id f s) k = active_scans s k"
  by (simp add: update_active_def split: option.splits)

lemma stores_update_active [simp]:
  "scan_results (update_active scan_id f s) = scan_results s"
  "results_files (update_active scan_id f s) = results_files s"
  by (simp_all add: update_active_def split: option.splits)

lemma scan_port_present:
  "map_of results target = Some tr \<Longrightarrow>
   scan_port e target port timeout results = Inr (write_result e timeout (target, port) results)"
  by (simp add: scan_port_def set_port_result_def write_result_def probe_value_def
      split: outcome.splits)

lemma scan_port_absent:
  "map_of results target = None \<Longrightarrow>
   scan_port e target port timeout results = Inl (KeyError target)"
  by (simp add: scan_port_def set_port_result_def split: outcome.splits)

lemma keys_write_result [simp]:
  "fst ` set (write_result e timeout f results) = fst ` set results"
proof (cases f)
  case (Pair t p)
  show ?thesis
  proof (cases "map_of results t")
    case None
    then show ?thesis by (simp add: Pair write_result_def)
  next
    case (Some tr)
    then have "(t, tr) \<in> set results" by (rule map_of_SomeD)
    then have "t \<in> fst ` set results" by force
    then show ?thesis using Some by (auto simp: Pair write_result_def dom_update)
  qed
qed

lemma submit_ports_Inr:
  "submit_ports e target ports futures = Inr fs \<Longrightarrow> fs = futures @ map (Pair target) ports"
proof (induction ports arbitrary: futures)
  case Nil
  then show ?case by simp
next
  case (Cons p ports)
  from Cons.prems have "submit_ports e target ports (futures @ [(target, p)]) = Inr fs"
    by (simp split: option.splits)
  from Cons.IH [OF this] show ?case by simp
qed

lemma submit_ports_no_fault:
  "(\<And>k. fault e (Submit k) = None) \<Longrightarrow>
   submit_ports e target ports futures = Inr (futures @ map (Pair target) ports)"
  by (induction ports arbitrary: futures) auto

lemma submit_hosts_Inr:
  "submit_hosts e live ports results futures = (Inr fs, results') \<Longrightarrow>
   fs = futures @ concat (map (\<lambda>t. map (Pair t) ports) live) \<and>
   results' = init_targets live results"
proof (induction live arbitrary: results futures)
  case Nil
  then show ?case by (simp add: init_targets_def)
next
  case (Cons t live)
  let ?r = "AList.update t \<lparr>tr_status = ''scanned'', tr_ports = []\<rparr> results"
  from Cons.prems obtain fs0 where
    a: "submit_ports e t ports futures = Inr fs0" and
    b: "submit_hosts e live ports ?r fs0 = (Inr fs, results')"
    by (auto simp: Let_def split: sum.splits)
  have "fs0 = futures @ map (Pair t) ports" using a by (rule submit_ports_Inr)
  with Cons.IH [OF b] show ?case by (simp add: init_targets_def)
qed

lemma submit_hosts_no_fault:
  "(\<And>k. fault e (Submit k) = None) \<Longrightarrow>
   submit_hosts e live ports results futures =
     (Inr (futures @ concat (map (\<lambda>t. map (Pair t) ports) live)), init_targets live results)"
  by (induction live arbitrary: results futures)
     (simp_all add: Let_def init_targets_def submit_ports_no_fault)

lemma keys_init_targets: "fst ` set (init_targets live results) = set live \<union> fst ` set results"
  unfolding init_targets_def
  by (induction live arbitrary: results) (auto simp: dom_update)

lemma distinct_init_targets:
  "distinct (map fst results) \<Longrightarrow> distinct (map fst (init_targets live results))"
  unfolding init_targets_def
  by (induction live arbitrary: results) (auto simp: distinct_update)

lemma map_of_init_targets:
  "t \<in> set live \<Longrightarrow>
   map_of (init_targets live results) t = Some \<lparr>tr_status = ''scanned'', tr_ports = []\<rparr>"
  unfolding init_targets_def
proof (induction live arbitrary: results)
  case Nil
  then show ?case by simp
next
  case (Cons a live)
  have keep: "\<And>r. t \<notin> set live \<Longrightarrow> map_of r t = Some v \<Longrightarrow>
      map_of (fold (\<lambda>t. AList.update t \<lparr>tr_status = ''scanned'', tr_ports = []\<rparr>) live r) t = Some v" for v
    by (induction live) (auto simp: update_conv')
  show ?case
  proof (cases "t \<in> set live")
    case True
    then show ?thesis using Cons.IH by simp
  next
    case False
    with Cons.prems have "a = t" by simp
    then show ?thesis using keep [OF False] by (simp add: update_conv')
  qed
qed

lemma set_progress_overwrite:
  "set_progress scan_id total_tasks k (set_progress scan_id total_tasks j s) =
   set_progress scan_id total_tasks k s"
  by (cases "active_scans s scan_id") (simp_all add: set_progress_def update_active_def)

lemma await_futures_shape:
  "\<exists>n \<le> length fs.
     snd (await_futures e scan_id tm tot fs c res s) =
       map (\<lambda>k. set_progress scan_id tot k s) [Suc c..<Suc c + n] \<and>
     (0 < n \<longrightarrow> tot \<noteq> 0) \<and>
     (\<forall>r. fst (await_futures e scan_id tm tot fs c res s) = Inr r \<longrightarrow> n = length fs)"
proof (induction fs arbitrary: c res s)
  case Nil
  then show ?case by simp
next
  case (Cons f fs)
  obtain t p where f: "f = (t, p)" by (cases f)
  show ?case
  proof (cases "scan_port e t p tm res")
    case (Inl err)
    then show ?thesis by (intro exI [of _ 0]) (simp add: f)
  next
    case (Inr res')
    show ?thesis
    proof (cases "tot = 0")
      case True
      then show ?thesis using Inr by (intro exI [of _ 0]) (simp add: f)
    next
      case False
      let ?s' = "set_progress scan_id tot (Suc c) s"
      from Cons.IH [of "Suc c" res' ?s'] obtain n where
        n: "n \<le> length fs" and
        tr: "snd (await_futures e scan_id tm tot fs (Suc c) res' ?s') =
             map (\<lambda>k. set_progress scan_id tot k ?s') [Suc (Suc c)..<Suc (Suc c) + n]" and
        full: "\<forall>r. fst (await_futures e scan_id tm tot fs (Suc c) res' ?s') = Inr r \<longrightarrow> n = length fs"
        by blast
      have unfold: "await_futures e scan_id tm tot (f # fs) c res s =
          (fst (await_futures e scan_id tm tot fs (Suc c) res' ?s'),
           ?s' # snd (await_futures e scan_id tm tot fs (Suc c) res' ?s'))"
        using Inr False
        by (simp add: f Let_def set_progress_def progress_at_def split: prod.splits)
      have upt: "[Suc c..<Suc c + Suc n] = Suc c # [Suc (Suc c)..<Suc (Suc c) + n]"
        by (simp add: upt_conv_Cons)
      have "snd (await_futures e scan_id tm tot (f # fs) c res s) =
          ?s' # map (\<lambda>k. set_progress scan_id tot k s) [Suc (Suc c)..<Suc (Suc c) + n]"
        by (simp add: unfold tr set_progress_overwrite del: upt_Suc)
      also have "\<dots> = map (\<lambda>k. set_progress scan_id tot k s) (Suc c # [Suc (Suc c)..<Suc (Suc c) + n])"
        by simp
      also have "\<dots> = map (\<lambda>k. set_progress scan_id tot k s) [Suc c..<Suc c + Suc n]"
        by (simp only: upt)
      finally have shape: "snd (await_futures e scan_id tm tot (f # fs) c res s) =
          map (\<lambda>k. set_progress scan_id tot k s) [Suc c..<Suc c + Suc n]" .
      have "Suc n \<le> length (f # fs)" using n by simp
      moreover have "\<forall>r. fst (await_futures e scan_id tm tot (f # fs) c res s) = Inr r \<longrightarrow>
          Suc n = length (f # fs)"
        using full by (simp add: unfold)
      ultimately show ?thesis using shape False by blast
    qed
  qed
qed

lemma scan_port_Inl: "scan_port e t p tm res = Inl err \<Longrightarrow> err = KeyError t"
  by (auto simp: scan_port_def set_port_result_def split: outcome.splits option.splits)

lemma await_futures_zero_division:
  "fst (await_futures e scan_id tm tot fs c res s) = Inl ZeroDivisionError \<Longrightarrow>
   tot = 0 \<and> fs \<noteq> []"
proof (induction fs arbitrary: c res s)
  case Nil
  then show ?case by simp
next
  case (Cons f fs)
  obtain t p where f: "f = (t, p)" by (cases f)
  show ?case
  proof (cases "tot = 0")
    case True
    then show ?thesis by simp
  next
    case False
    show ?thesis
    proof (cases "scan_port e t p tm res")
      case (Inl err)
      then have "err = KeyError t" by (rule scan_port_Inl)
      with Cons.prems Inl show ?thesis by (simp add: f)
    next
      case (Inr res')
      with Cons.prems False have
        "fst (await_futures e scan_id tm tot fs (Suc c) res'
           (update_active scan_id (\<lambda>st. st\<lparr>st_progress := of_nat (Suc c) / of_nat tot * 100\<rparr>) s))
         = Inl ZeroDivisionError"
        by (simp add: f Let_def split: prod.splits)
      from Cons.IH [OF this] False show ?thesis by simp
    qed
  qed
qed

lemma await_futures_ok:
  "\<forall>f \<in> set fs. fst f \<in> fst ` set res \<Longrightarrow> (fs \<noteq> [] \<longrightarrow> tot \<noteq> 0) \<Longrightarrow>
   fst (await_futures e scan_id tm tot fs c res s) = Inr (fold (write_result e tm) fs res)"
proof (induction fs arbitrary: c res s)
  case Nil
  then show ?case by simp
next
  case (Cons f fs)
  obtain t p where f: "f = (t, p)" by (cases f)
  from Cons.prems have "t \<in> fst ` set res" by (simp add: f)
  then obtain tr where "map_of res t = Some tr"
    by (metis map_of_eq_None_iff not_Some_eq)
  then have sp: "scan_port e t p tm res = Inr (write_result e tm (t, p) res)"
    by (rule scan_port_present)
  have keys: "\<forall>f \<in> set fs. fst f \<in> fst ` set (write_result e tm (t, p) res)"
    using Cons.prems by simp
  have nz: "tot \<noteq> 0" using Cons.prems by simp
  show ?case
    using Cons.IH [OF keys, of "Suc c"] nz
    by (simp add: f sp Let_def case_prod_beta)
qed

lemma length_futures_of: "length (futures_of live ports) = length live * length ports"
  by (induction live) (simp_all add: futures_of_def)

lemma set_futures_of: "set (futures_of live ports) = set live \<times> set ports"
  by (auto simp: futures_of_def)

lemma length_discover_hosts: "length (discover_hosts e targets) \<le> length targets"
  by (simp add: discover_hosts_filter)

lemma run_probes_Inr:
  assumes "fst (run_probes e scan_id targets ports tm s) = Inr r"
  shows "fault e Discovery = None \<and>
         r = fold (write_result e tm) (futures_of (discover_hosts e targets) ports)
               (init_targets (discover_hosts e targets) [])"
proof -
  let ?live = "discover_hosts e targets"
  let ?tot = "length targets * length ports"
  from assms have d: "fault e Discovery = None"
    by (auto simp: run_probes_def Let_def split: option.splits)
  obtain x res where sh: "submit_hosts e ?live ports [] [] = (x, res)" by (cases "submit_hosts e ?live ports [] []")
  from assms d sh obtain fs where x: "x = Inr fs"
    by (cases x) (auto simp: run_probes_def Let_def)
  from submit_hosts_Inr [OF sh [unfolded x]] have
    fs: "fs = futures_of ?live ports" and res: "res = init_targets ?live []"
    by (simp_all add: futures_of_def)
  have keys: "\<forall>f \<in> set fs. fst f \<in> fst ` set res"
    by (auto simp: fs res set_futures_of keys_init_targets)
  have "length fs \<le> ?tot"
    using length_discover_hosts [of e targets] by (simp add: fs length_futures_of)
  then have nz: "fs \<noteq> [] \<longrightarrow> ?tot \<noteq> 0" by auto
  have "fst (run_probes e scan_id targets ports tm s) = fst (await_futures e scan_id tm ?tot fs 0 res s)"
    using d sh x by (simp add: run_probes_def Let_def)
  with await_futures_ok [OF keys nz, of e scan_id tm 0 s] assms show ?thesis
    using d by (simp add: fs res)
qed

lemma run_probes_no_fault:
  assumes "fault e Discovery = None" and "\<And>k. fault e (Submit k) = None"
  shows "fst (run_probes e scan_id targets ports tm s) =
           Inr (fold (write_result e tm) (futures_of (discover_hosts e targets) ports)
               (init_targets (discover_hosts e targets) []))"
proof -
  let ?live = "discover_hosts e targets"
  let ?tot = "length targets * length ports"
  let ?fs = "futures_of ?live ports"
  let ?res = "init_targets ?live []"
  have sh: "submit_hosts e ?live ports [] [] = (Inr ?fs, ?res)"
    using submit_hosts_no_fault [of e ?live ports "[]" "[]"] assms(2) by (simp add: futures_of_def)
  have keys: "\<forall>f \<in> set ?fs. fst f \<in> fst ` set ?res"
    by (auto simp: set_futures_of keys_init_targets)
  have "length ?fs \<le> ?tot"
    using length_discover_hosts [of e targets] by (simp add: length_futures_of)
  then have nz: "?fs \<noteq> [] \<longrightarrow> ?tot \<noteq> 0" by auto
  have "fst (run_probes e scan_id targets ports tm s) = fst (await_futures e scan_id tm ?tot ?fs 0 ?res s)"
    using assms(1) sh by (simp add: run_probes_def Let_def)
  with await_futures_ok [OF keys nz, of e scan_id tm 0 s] show ?thesis by simp
qed

lemma run_probes_shape:
  "\<exists>n \<le> length (discover_hosts e targets) * length ports.
     snd (run_probes e scan_id targets ports tm s) =
       map (\<lambda>k. set_progress scan_id (length targets * length ports) k s) [1..<Suc n] \<and>
     (\<forall>r. fst (run_probes e scan_id targets ports tm s) = Inr r \<longrightarrow>
        n = length (discover_hosts e targets) * length ports)"
proof -
  let ?live = "discover_hosts e targets"
  let ?tot = "length targets * length ports"
  show ?thesis
  proof (cases "fault e Discovery")
    case (Some msg)
    then show ?thesis by (intro exI [of _ 0]) (simp add: run_probes_def)
  next
    case None
    obtain x res where sh: "submit_hosts e ?live ports [] [] = (x, res)"
      by (cases "submit_hosts e ?live ports [] []")
    show ?thesis
    proof (cases x)
      case (Inl err)
      then show ?thesis using None sh by (intro exI [of _ 0]) (simp add: run_probes_def)
    next
      case (Inr fs)
      from submit_hosts_Inr [OF sh [unfolded Inr]] have fs: "fs = futures_of ?live ports"
        by (simp add: futures_of_def)
      have rp: "run_probes e scan_id targets ports tm s = await_futures e scan_id tm ?tot fs 0 res s"
        using None sh Inr by (simp add: run_probes_def Let_def)
      from await_futures_shape [of fs e scan_id tm ?tot 0 res s] obtain n where
        "n \<le> length fs" and
        "snd (await_futures e scan_id tm ?tot fs 0 res s) =
           map (\<lambda>k. set_progress scan_id ?tot k s) [Suc 0..<Suc 0 + n]" and
        "\<forall>r. fst (await_futures e scan_id tm ?tot fs 0 res s) = Inr r \<longrightarrow> n = length fs"
        by blast
      then show ?thesis
        by (intro exI [of _ n]) (simp add: rp fs length_futures_of)
    qed
  qed
qed

lemma run_probes_no_zero_division:
  "fst (run_probes e scan_id targets ports tm s) \<noteq> Inl ZeroDivisionError"
proof
  let ?live = "discover_hosts e targets"
  let ?tot = "length targets * length ports"
  assume a: "fst (run_probes e scan_id targets ports tm s) = Inl ZeroDivisionError"
  then have d: "fault e Discovery = None"
    by (auto simp: run_probes_def Let_def split: option.splits)
  obtain x res where sh: "submit_hosts e ?live ports [] [] = (x, res)"
    by (cases "submit_hosts e ?live ports [] []")
  have "\<exists>fs. x = Inr fs"
  proof (cases x)
    case (Inl err)
    then have "err = ZeroDivisionError" using a d sh by (simp add: run_probes_def)
    moreover have "\<And>t ps fs0 err. submit_ports e t ps fs0 = Inl err \<Longrightarrow> err \<noteq> ZeroDivisionError"
    proof -
      fix t ps fs0 err show "submit_ports e t ps fs0 = Inl err \<Longrightarrow> err \<noteq> ZeroDivisionError"
        by (induction ps arbitrary: fs0) (auto split: option.splits)
    qed
    then have "\<And>l r0 fs0 err r1. submit_hosts e l ports r0 fs0 = (Inl err, r1) \<Longrightarrow> err \<noteq> ZeroDivisionError"
    proof -
      assume sp: "\<And>t ps fs0 err. submit_ports e t ps fs0 = Inl err \<Longrightarrow> err \<noteq> ZeroDivisionError"
      fix l r0 fs0 err r1
      show "submit_hosts e l ports r0 fs0 = (Inl err, r1) \<Longrightarrow> err \<noteq> ZeroDivisionError"
        by (induction l arbitrary: r0 fs0) (auto simp: Let_def split: sum.splits dest: sp)
    qed
    ultimately show ?thesis using sh Inl by blast
  next
    case (Inr fs)
    then show ?thesis by blast
  qed
  then obtain fs where x: "x = Inr fs" by blast
  from submit_hosts_Inr [OF sh [unfolded x]] have fs: "fs = futures_of ?live ports"
    by (simp add: futures_of_def)
  have "fst (await_futures e scan_id tm ?tot fs 0 res s) = Inl ZeroDivisionError"
    using a d sh x by (simp add: run_probes_def Let_def)
  then have z: "?tot = 0" and ne: "fs \<noteq> []" using await_futures_zero_division by blast+
  have "length fs \<le> ?tot"
    using length_discover_hosts [of e targets] by (simp add: fs length_futures_of)
  with z have "length fs = 0" by (metis le_zero_eq)
  with ne show False by simp
qed

lemma fold_update_map_of:
  "map_of (fold (\<lambda>p. AList.update p (g p)) ps al) q =
     (if q \<in> set ps then Some (g q) else map_of al q)"
  by (induction ps arbitrary: al) (auto simp: update_conv')

lemma fold_update_keys:
  "fst ` set (fold (\<lambda>p. AList.update p (g p)) ps al) = set ps \<union> fst ` set al"
  by (induction ps arbitrary: al) (auto simp: dom_update)

lemma fold_update_distinct:
  "distinct (map fst al) \<Longrightarrow> distinct (map fst (fold (\<lambda>p. AList.update p (g p)) ps al))"
  by (induction ps arbitrary: al) (auto simp: distinct_update)

lemma map_of_write_result:
  "map_of (write_result e tm (t', p) res) t =
     (if t' = t
      then map_option (\<lambda>tr. tr\<lparr>tr_ports := AList.update p (probe_value e t p tm) (tr_ports tr)\<rparr>)
             (map_of res t)
      else map_of res t)"
  by (auto simp: write_result_def update_conv' split: option.splits)

lemma map_of_fold_write_result:
  "map_of (fold (write_result e tm) fs res) t =
     map_option
       (\<lambda>tr. tr\<lparr>tr_ports :=
          fold (\<lambda>p. AList.update p (probe_value e t p tm))
            (map snd (filter (\<lambda>f. fst f = t) fs)) (tr_ports tr)\<rparr>)
       (map_of res t)"
proof (induction fs arbitrary: res)
  case Nil
  show ?case by (cases "map_of res t") simp_all
next
  case (Cons f fs)
  obtain t' p where f: "f = (t', p)" by (cases f)
  show ?case
    by (cases "map_of res t") (simp_all add: f Cons.IH map_of_write_result)
qed

lemma keys_fold_write_result [simp]:
  "fst ` set (fold (write_result e tm) fs res) = fst ` set res"
  by (induction fs arbitrary: res) simp_all

lemma distinct_write_result:
  "distinct (map fst res) \<Longrightarrow> distinct (map fst (write_result e tm f res))"
  by (cases f) (auto simp: write_result_def distinct_update split: option.splits)

lemma distinct_fold_write_result:
  "distinct (map fst res) \<Longrightarrow> distinct (map fst (fold (write_result e tm) fs res))"
  by (induction fs arbitrary: res) (simp_all add: distinct_write_result)

lemma ports_of_target:
  "t \<in> set live \<Longrightarrow>
   set (map snd (filter (\<lambda>f. fst f = t) (futures_of live ports))) = set ports"
  by (force simp: futures_of_def)

lemma probe_value_status:
  "pr_status (probe_value e t p tm) \<in> {''open'', ''closed'', ''filtered'', ''error''}"
  by (simp add: probe_value_def port_status_def error_result_def Let_def
      split: outcome.splits option.splits)

lemma probe_value_raised:
  "sr1 e t p tm = Raised msg \<Longrightarrow> probe_value e t p tm = error_result p msg"
  by (simp add: probe_value_def)

lemma final_results:
  fixes e tm live ports
  defines "r \<equiv> fold (write_result e tm) (futures_of live ports) (init_targets live [])"
  shows "fst ` set r = set live" and "distinct (map fst r)"
    and "t \<in> set live \<Longrightarrow>
         \<exists>tr. map_of r t = Some tr \<and> tr_status tr = ''scanned'' \<and>
              fst ` set (tr_ports tr) = set ports \<and> distinct (map fst (tr_ports tr)) \<and>
              (\<forall>p \<in> set ports. map_of (tr_ports tr) p = Some (probe_value e t p tm))"
proof -
  show "fst ` set r = set live" by (simp add: r_def keys_init_targets)
  show "distinct (map fst r)"
    by (simp add: r_def distinct_fold_write_result distinct_init_targets)
  assume t: "t \<in> set live"
  let ?ps = "map snd (filter (\<lambda>f. fst f = t) (futures_of live ports))"
  let ?tr = "\<lparr>tr_status = ''scanned'',
              tr_ports = fold (\<lambda>p. AList.update p (probe_value e t p tm)) ?ps []\<rparr>"
  have ps: "set ?ps = set ports" using t by (rule ports_of_target)
  have "map_of r t = Some ?tr"
    by (simp add: r_def map_of_fold_write_result map_of_init_targets [OF t])
  moreover have "fst ` set (tr_ports ?tr) = set ports"
    using ps by (simp add: fold_update_keys)
  moreover have "distinct (map fst (tr_ports ?tr))"
    by (simp add: fold_update_distinct)
  moreover have "\<forall>p \<in> set ports. map_of (tr_ports ?tr) p = Some (probe_value e t p tm)"
    using ps by (simp add: fold_update_map_of)
  ultimately show "\<exists>tr. map_of r t = Some tr \<and> tr_status tr = ''scanned'' \<and>
              fst ` set (tr_ports tr) = set ports \<and> distinct (map fst (tr_ports tr)) \<and>
              (\<forall>p \<in> set ports. map_of (tr_ports tr) p = Some (probe_value e t p tm))"
    by (intro exI [of _ ?tr]) simp
qed

lemma entries_simps [simp]:
  "entries [] scan_id = []"
  "entries (x # tr) scan_id = active_scans x scan_id # entries tr scan_id"
  "entries (tr @ tr') scan_id = entries tr scan_id @ entries tr' scan_id"
  by (simp_all add: entries_def)

lemma handle_error_entries:
  "active_scans s scan_id = Some v \<Longrightarrow>
   entries (handle_error scan_id err s) scan_id = map Some (error_entries v (str_error err))"
  by (simp add: handle_error_def error_entries_def Let_def)

lemma handle_error_stores:
  "x \<in> set (handle_error scan_id err s) \<Longrightarrow>
   scan_results x = scan_results s \<and> results_files x = results_files s"
  by (auto simp: handle_error_def Let_def)

lemma complete_scan_fault_detect:
  "fault e Detect = Some msg \<Longrightarrow>
   complete_scan e scan_id targets ports tm r s = (Some (Fault msg), [])"
  by (simp add: complete_scan_def)

lemma sr_results_final_record [simp]:
  "sr_results (final_record e scan_id targets ports tm r) = r"
  by (simp add: final_record_def Let_def)

lemma complete_scan_ok:
  assumes "fault e Detect = None" and "active_scans s scan_id = Some v"
  shows "\<exists>tr. complete_scan e scan_id targets ports tm r s =
            (map_option Fault (fault e Save),
             tr @ (if fault e Save = None
                   then [(last tr)\<lparr>results_files := (results_files s)(scan_id \<mapsto>
                           final_record e scan_id targets ports tm r)\<rparr>]
                   else [])) \<and>
          entries tr scan_id = map Some (done_entries e v) \<and>
          (\<forall>x \<in> set (butlast tr). scan_results x = scan_results s) \<and>
          (\<forall>x \<in> set tr. results_files x = results_files s) \<and>
          tr \<noteq> [] \<and>
          scan_results (last tr) = (scan_results s)(scan_id \<mapsto> final_record e scan_id targets ports tm r)"
proof -
  let ?end = "clock_end e"
  let ?dur = "clock_end e - clock_start e"
  let ?s1 = "update_active scan_id (\<lambda>st. st\<lparr>st_status := ''completed''\<rparr>) s"
  let ?s2 = "update_active scan_id (\<lambda>st. st\<lparr>st_progress := 100\<rparr>) ?s1"
  let ?s3 = "update_active scan_id (\<lambda>st. st\<lparr>st_end_time := Some ?end\<rparr>) ?s2"
  let ?s4 = "update_active scan_id (\<lambda>st. st\<lparr>st_duration := Some ?dur\<rparr>) ?s3"
  let ?s5 = "?s4\<lparr>scan_results := (scan_results ?s4)(scan_id \<mapsto> final_record e scan_id targets ports tm r)\<rparr>"
  let ?tr = "[?s1, ?s2, ?s3, ?s4, ?s5]"
  have "complete_scan e scan_id targets ports tm r s =
            (map_option Fault (fault e Save),
             ?tr @ (if fault e Save = None
                   then [(last ?tr)\<lparr>results_files := (results_files s)(scan_id \<mapsto>
                           final_record e scan_id targets ports tm r)\<rparr>]
                   else []))"
    using assms(1) by (simp add: complete_scan_def final_record_def Let_def split: option.splits)
  moreover have "entries ?tr scan_id = map Some (done_entries e v)"
    using assms(2) by (simp add: done_entries_def Let_def)
  ultimately show ?thesis
    by (intro exI [of _ ?tr]) simp
qed

lemma progress_at_bounds: "k \<le> tot \<Longrightarrow> 0 \<le> progress_at tot k \<and> progress_at tot k \<le> 100"
proof (cases "tot = 0")
  case True
  then show ?thesis by (simp add: progress_at_def)
next
  case False
  assume "k \<le> tot"
  then have "(of_nat k :: rat) \<le> of_nat tot" by simp
  moreover have "(0 :: rat) < of_nat tot" using False by simp
  ultimately have "(of_nat k :: rat) / of_nat tot \<le> 1" by (simp add: divide_le_eq)
  then have "(of_nat k :: rat) / of_nat tot * 100 \<le> 1 * 100"
    by (rule mult_right_mono) simp
  moreover have "(0 :: rat) \<le> of_nat k / of_nat tot * 100" by simp
  ultimately show ?thesis unfolding progress_at_def by simp
qed

lemma progress_at_mono: "j \<le> k \<Longrightarrow> progress_at tot j \<le> progress_at tot k"
  by (simp add: progress_at_def divide_right_mono)

lemma entries_set_progress:
  "active_scans s scan_id = Some v \<Longrightarrow>
   entries (map (\<lambda>k. set_progress scan_id tot k s) ks) scan_id =
     map (\<lambda>k. Some (v\<lparr>st_progress := progress_at tot k\<rparr>)) ks"
  by (simp add: entries_def set_progress_def)

lemma run_probes_entries:
  assumes "active_scans s scan_id = Some v"
  shows "\<exists>n \<le> length (discover_hosts e targets) * length ports.
           entries (s # snd (run_probes e scan_id targets ports tm s)) scan_id =
             map Some (progress_entries v (length targets * length ports) n) \<and>
           (\<forall>x \<in> set (s # snd (run_probes e scan_id targets ports tm s)).
              scan_results x = scan_results s \<and> results_files x = results_files s) \<and>
           (\<forall>r. fst (run_probes e scan_id targets ports tm s) = Inr r \<longrightarrow>
              n = length (discover_hosts e targets) * length ports)"
proof -
  from run_probes_shape [of e targets ports scan_id tm s] obtain n where
    n: "n \<le> length (discover_hosts e targets) * length ports" and
    sh: "snd (run_probes e scan_id targets ports tm s) =
       map (\<lambda>k. set_progress scan_id (length targets * length ports) k s) [1..<Suc n]" and
    full: "\<forall>r. fst (run_probes e scan_id targets ports tm s) = Inr r \<longrightarrow>
        n = length (discover_hosts e targets) * length ports"
    by blast
  have "entries (s # snd (run_probes e scan_id targets ports tm s)) scan_id =
             map Some (progress_entries v (length targets * length ports) n)"
    using assms by (simp add: sh entries_set_progress progress_entries_def comp_def del: upt_Suc)
  moreover have "\<forall>x \<in> set (s # snd (run_probes e scan_id targets ports tm s)).
              scan_results x = scan_results s \<and> results_files x = results_files s"
    by (auto simp: sh set_progress_def simp del: upt_Suc)
  ultimately show ?thesis using n full by blast
qed

lemma last_entries:
  "tr \<noteq> [] \<Longrightarrow> entries tr scan_id = map Some vs \<Longrightarrow> active_scans (last tr) scan_id = Some (last vs)"
  by (metis entries_def last_map list.map_disc_iff)

lemma progress_entries_nonempty [simp]: "progress_entries v tot n \<noteq> []"
  by (simp add: progress_entries_def)

lemma done_entries_nonempty [simp]: "done_entries e v \<noteq> []"
  by (simp add: done_entries_def Let_def)

lemma execute_scan_probe_error:
  assumes "fst (run_probes e scan_id targets ports tm s) = Inl err"
  shows "execute_scan e scan_id targets ports tm s =
           (s # snd (run_probes e scan_id targets ports tm s)) @
           handle_error scan_id err (last (s # snd (run_probes e scan_id targets ports tm s)))"
  using assms by (cases "run_probes e scan_id targets ports tm s") (simp add: execute_scan_def)

lemma execute_scan_detect_error:
  assumes "fst (run_probes e scan_id targets ports tm s) = Inr r" and "fault e Detect = Some msg"
  shows "execute_scan e scan_id targets ports tm s =
           (s # snd (run_probes e scan_id targets ports tm s)) @
           handle_error scan_id (Fault msg) (last (s # snd (run_probes e scan_id targets ports tm s)))"
  using assms
  by (cases "run_probes e scan_id targets ports tm s")
     (simp add: execute_scan_def complete_scan_fault_detect)

lemma execute_scan_completes:
  assumes "fst (run_probes e scan_id targets ports tm s) = Inr r" and "fault e Detect = None"
  shows "execute_scan e scan_id targets ports tm s =
           (s # snd (run_probes e scan_id targets ports tm s)) @
           snd (complete_scan e scan_id targets ports tm r
                  (last (s # snd (run_probes e scan_id targets ports tm s)))) @
           (case fault e Save of
              None \<Rightarrow> []
            | Some msg \<Rightarrow>
                handle_error scan_id (Fault msg)
                  (last ((s # snd (run_probes e scan_id targets ports tm s)) @
                     snd (complete_scan e scan_id targets ports tm r
                       (last (s # snd (run_probes e scan_id targets ports tm s)))))))"
proof -
  obtain tr where rp: "run_probes e scan_id targets ports tm s = (Inr r, tr)"
    using assms(1) by (cases "run_probes e scan_id targets ports tm s") simp
  have fstc: "fst (complete_scan e scan_id targets ports tm r (last (s # tr))) =
      map_option Fault (fault e Save)"
    using assms(2) by (simp add: complete_scan_def Let_def split: option.splits)
  show ?thesis
    using fstc
    by (cases "complete_scan e scan_id targets ports tm r (last (s # tr))")
       (auto simp: execute_scan_def rp split: option.splits)
qed

lemma entries_member:
  "entries tr scan_id = map Some vs \<Longrightarrow> x \<in> set tr \<Longrightarrow> \<exists>w \<in> set vs. active_scans x scan_id = Some w"
proof -
  assume a: "entries tr scan_id = map Some vs" and x: "x \<in> set tr"
  from x have "active_scans x scan_id \<in> set (entries tr scan_id)" by (simp add: entries_def)
  with a show ?thesis by auto
qed

lemma execute_scan_trace:
  assumes v: "active_scans s scan_id = Some v"
  shows "\<exists>n \<le> length (discover_hosts e targets) * length ports. \<exists>tl.
           execute_scan e scan_id targets ports tm s =
             (s # snd (run_probes e scan_id targets ports tm s)) @ tl \<and>
           entries (s # snd (run_probes e scan_id targets ports tm s)) scan_id =
             map Some (progress_entries v (length targets * length ports) n) \<and>
           (\<forall>x \<in> set (s # snd (run_probes e scan_id targets ports tm s)).
              scan_results x = scan_results s \<and> results_files x = results_files s) \<and>
           entries tl scan_id =
             map Some (tail_entries e (last (progress_entries v (length targets * length ports) n))
               (ending_of e scan_id targets ports tm s)) \<and>
           (\<forall>r. fst (run_probes e scan_id targets ports tm s) = Inr r \<longrightarrow>
              n = length (discover_hosts e targets) * length ports) \<and>
           (case ending_of e scan_id targets ports tm s of
              Failed msg \<Rightarrow>
                (\<forall>x \<in> set tl. scan_results x = scan_results s \<and> results_files x = results_files s)
            | Finished \<Rightarrow>
                (\<exists>r. fst (run_probes e scan_id targets ports tm s) = Inr r \<and>
                   scan_results (last tl) =
                     (scan_results s)(scan_id \<mapsto> final_record e scan_id targets ports tm r) \<and>
                   results_files (last tl) =
                     (results_files s)(scan_id \<mapsto> final_record e scan_id targets ports tm r))
            | Unsaved msg \<Rightarrow>
                (\<exists>r. fst (run_probes e scan_id targets ports tm s) = Inr r \<and>
                   scan_results (last tl) =
                     (scan_results s)(scan_id \<mapsto> final_record e scan_id targets ports tm r) \<and>
                   results_files (last tl) = results_files s))"
proof -
  note last.simps [simp del]
  let ?T = "length targets * length ports"
  let ?rp = "run_probes e scan_id targets ports tm s"
  let ?pre = "s # snd ?rp"
  from run_probes_entries [OF v, of e targets ports tm] obtain n where
    n: "n \<le> length (discover_hosts e targets) * length ports" and
    pre: "entries ?pre scan_id = map Some (progress_entries v ?T n)" and
    stores: "\<forall>x \<in> set ?pre. scan_results x = scan_results s \<and> results_files x = results_files s" and
    full: "\<forall>r. fst ?rp = Inr r \<longrightarrow> n = length (discover_hosts e targets) * length ports"
    by blast
  let ?vn = "last (progress_entries v ?T n)"
  let ?sn = "last ?pre"
  have sn: "active_scans ?sn scan_id = Some ?vn"
    using last_entries [OF _ pre] by simp
  have sn_stores: "scan_results ?sn = scan_results s \<and> results_files ?sn = results_files s"
    using stores by (metis last_in_set list.discI)
  have "\<exists>tl. execute_scan e scan_id targets ports tm s = ?pre @ tl \<and>
      entries tl scan_id = map Some (tail_entries e ?vn (ending_of e scan_id targets ports tm s)) \<and>
      (case ending_of e scan_id targets ports tm s of
              Failed msg \<Rightarrow>
                (\<forall>x \<in> set tl. scan_results x = scan_results s \<and> results_files x = results_files s)
            | Finished \<Rightarrow>
                (\<exists>r. fst ?rp = Inr r \<and>
                   scan_results (last tl) =
                     (scan_results s)(scan_id \<mapsto> final_record e scan_id targets ports tm r) \<and>
                   results_files (last tl) =
                     (results_files s)(scan_id \<mapsto> final_record e scan_id targets ports tm r))
            | Unsaved msg \<Rightarrow>
                (\<exists>r. fst ?rp = Inr r \<and>
                   scan_results (last tl) =
                     (scan_results s)(scan_id \<mapsto> final_record e scan_id targets ports tm r) \<and>
                   results_files (last tl) = results_files s))"
  proof (cases "fst ?rp")
    case (Inl err)
    have en: "ending_of e scan_id targets ports tm s = Failed (str_error err)"
      by (simp add: ending_of_def Inl)
    show ?thesis
      using execute_scan_probe_error [OF Inl] handle_error_entries [OF sn, of err]
        handle_error_stores [of _ scan_id err ?sn] sn_stores
      by (intro exI [of _ "handle_error scan_id err ?sn"]) (simp add: en tail_entries_def)
  next
    case (Inr r)
    show ?thesis
    proof (cases "fault e Detect")
      case (Some msg)
      have en: "ending_of e scan_id targets ports tm s = Failed msg"
        by (simp add: ending_of_def Inr Some)
      show ?thesis
        using execute_scan_detect_error [OF Inr Some] handle_error_entries [OF sn, of "Fault msg"]
          handle_error_stores [of _ scan_id "Fault msg" ?sn] sn_stores
        by (intro exI [of _ "handle_error scan_id (Fault msg) ?sn"]) (simp add: en tail_entries_def)
    next
      case None
      from complete_scan_ok [OF None sn, of targets ports tm r] obtain tr where
        cs: "complete_scan e scan_id targets ports tm r ?sn =
            (map_option Fault (fault e Save),
             tr @ (if fault e Save = None
                   then [(last tr)\<lparr>results_files := (results_files ?sn)(scan_id \<mapsto>
                           final_record e scan_id targets ports tm r)\<rparr>]
                   else []))" and
        tr_entries: "entries tr scan_id = map Some (done_entries e ?vn)" and
        tr_files: "\<forall>x \<in> set tr. results_files x = results_files ?sn" and
        tr_ne: "tr \<noteq> []" and
        tr_last: "scan_results (last tr) =
            (scan_results ?sn)(scan_id \<mapsto> final_record e scan_id targets ports tm r)"
        by blast
      have last_tr: "active_scans (last tr) scan_id = Some (last (done_entries e ?vn))"
        using last_entries [OF tr_ne tr_entries] .
      show ?thesis
      proof (cases "fault e Save")
        case None': None
        have en: "ending_of e scan_id targets ports tm s = Finished"
          by (simp add: ending_of_def Inr None None')
        let ?fin = "(last tr)\<lparr>results_files := (results_files ?sn)(scan_id \<mapsto>
                           final_record e scan_id targets ports tm r)\<rparr>"
        have ex: "execute_scan e scan_id targets ports tm s = ?pre @ (tr @ [?fin])"
          using execute_scan_completes [OF Inr None] by (simp add: cs None')
        show ?thesis
          using tr_entries last_tr tr_last sn_stores Inr
          by (intro exI [of _ "tr @ [?fin]"]) (simp add: ex en tail_entries_def)
      next
        case (Some msg)
        have en: "ending_of e scan_id targets ports tm s = Unsaved msg"
          by (simp add: ending_of_def Inr None Some)
        let ?h = "handle_error scan_id (Fault msg) (last tr)"
        have lt: "last (s # snd ?rp @ tr) = last tr"
          using tr_ne by (metis append_Cons last_appendR)
        have ex: "execute_scan e scan_id targets ports tm s = ?pre @ (tr @ ?h)"
          using execute_scan_completes [OF Inr None] by (simp add: cs Some lt)
        have h_ne: "?h \<noteq> []" by (simp add: handle_error_def Let_def)
        have "last (tr @ ?h) \<in> set ?h" using h_ne by (metis last_appendR last_in_set)
        then have h_last: "scan_results (last (tr @ ?h)) = scan_results (last tr) \<and>
            results_files (last (tr @ ?h)) = results_files (last tr)"
          by (rule handle_error_stores)
        have lf: "results_files (last tr) = results_files ?sn"
          using tr_files tr_ne by (metis last_in_set)
        show ?thesis
          using tr_entries handle_error_entries [OF last_tr, of "Fault msg"] h_last tr_last lf
            sn_stores Inr
          by (intro exI [of _ "tr @ ?h"]) (simp add: ex en tail_entries_def)
      qed
    qed
  qed
  then show ?thesis using n pre stores full by blast
qed

lemma start_scan_entry [simp]:
  "active_scans (start_scan e scan_id targets ports tm s) scan_id =
     Some (initial_entry e targets ports tm)"
  "scan_results (start_scan e scan_id targets ports tm s) = scan_results s"
  "results_files (start_scan e scan_id targets ports tm s) = results_files s"
  by (simp_all add: start_scan_def initial_entry_def)

lemma initial_entry_fields [simp]:
  "st_status (initial_entry e targets ports tm) = ''running''"
  "st_progress (initial_entry e targets ports tm) = 0"
  "st_results (initial_entry e targets ports tm) = []"
  by (simp_all add: initial_entry_def)

lemma get_scan_status_entry:
  "active_scans x scan_id = Some w \<Longrightarrow> fst (get_scan_status x scan_id) = Some (Entry w)"
  by (simp add: get_scan_status_def)

lemma polls_of_entries:
  "entries tr scan_id = map Some sts \<Longrightarrow>
   map (\<lambda>x. fst (get_scan_status x scan_id)) tr = map (\<lambda>st. Some (Entry st)) sts"
proof (induction tr arbitrary: sts)
  case Nil
  then show ?case by simp
next
  case (Cons x tr)
  then obtain w ws where sts: "sts = w # ws" and w: "active_scans x scan_id = Some w"
    and ws: "entries tr scan_id = map Some ws"
    by (cases sts) auto
  show ?case using Cons.IH [OF ws] get_scan_status_entry [OF w] by (simp add: sts)
qed

lemma progress_at_zero [simp]: "progress_at tot 0 = 0"
  by (simp add: progress_at_def)

lemma progress_entries_progress:
  "st_progress v = 0 \<Longrightarrow>
   map st_progress (progress_entries v tot n) = map (progress_at tot) [0..<Suc n]"
proof -
  assume v: "st_progress v = 0"
  have "[0..<Suc n] = 0 # [1..<Suc n]" by (simp add: upt_conv_Cons)
  then show ?thesis using v by (simp add: progress_entries_def comp_def del: upt_Suc)
qed

lemma progress_entries_status:
  "map st_status (progress_entries v tot n) = replicate (Suc n) (st_status v)"
  by (simp add: progress_entries_def comp_def map_replicate_const del: upt_Suc)

lemma progress_entries_results:
  "w \<in> set (progress_entries v tot n) \<Longrightarrow> st_results w = st_results v \<and> st_status w = st_status v"
  by (auto simp: progress_entries_def simp del: upt_Suc)

lemma progress_entries_last:
  "st_progress v = 0 \<Longrightarrow>
   st_progress (last (progress_entries v tot n)) = progress_at tot n \<and>
   st_status (last (progress_entries v tot n)) = st_status v \<and>
   st_results (last (progress_entries v tot n)) = st_results v"
  by (cases n) (simp_all add: progress_entries_def)

lemma tail_entries_status:
  "map st_status (tail_entries e v en) =
     (case en of
        Failed msg \<Rightarrow> replicate 2 ''error''
      | Finished \<Rightarrow> replicate 6 ''completed''
      | Unsaved msg \<Rightarrow> replicate 5 ''completed'' @ replicate 2 ''error'')"
  by (cases en)
     (simp_all add: tail_entries_def error_entries_def done_entries_def Let_def numeral_eq_Suc)

lemma tail_entries_progress:
  "map st_progress (tail_entries e v en) =
     (case en of
        Failed msg \<Rightarrow> replicate 2 (st_progress v)
      | Finished \<Rightarrow> st_progress v # replicate 5 100
      | Unsaved msg \<Rightarrow> st_progress v # replicate 6 100)"
  by (cases en)
     (simp_all add: tail_entries_def error_entries_def done_entries_def Let_def numeral_eq_Suc)

lemma tail_entries_fields:
  "w \<in> set (tail_entries e v en) \<Longrightarrow>
   st_results w = st_results v \<and> (st_status w = ''completed'' \<or> st_status w = ''error'')"
  by (cases en)
     (auto simp: tail_entries_def error_entries_def done_entries_def Let_def)

lemma tail_entries_last:
  "tail_entries e v en \<noteq> [] \<and>
   st_results (last (tail_entries e v en)) = st_results v \<and>
   (case en of
      Failed msg \<Rightarrow>
        st_status (last (tail_entries e v en)) = ''error'' \<and>
        st_error (last (tail_entries e v en)) = Some msg
    | Finished \<Rightarrow>
        st_status (last (tail_entries e v en)) = ''completed'' \<and>
        st_progress (last (tail_entries e v en)) = 100
    | Unsaved msg \<Rightarrow>
        st_status (last (tail_entries e v en)) = ''error'' \<and>
        st_error (last (tail_entries e v en)) = Some msg)"
  by (cases en)
     (simp_all add: tail_entries_def error_entries_def done_entries_def Let_def)

lemma sorted_progress_at: "sorted (map (progress_at tot) [0..<m])"
  by (simp add: sorted_iff_nth_mono progress_at_mono)

lemma lifecycle_of_entries:
  fixes e :: env and en :: ending
  assumes v: "st_progress v = 0" "st_status v = ''running''" and n: "n \<le> tot"
  defines "sts \<equiv> progress_entries v tot n @ tail_entries e (last (progress_entries v tot n)) en"
  shows "\<exists>a b c.
           map st_status sts =
             replicate (Suc a) ''running'' @ replicate b ''completed'' @ replicate c ''error'' \<and>
           ((\<forall>m. en \<noteq> Unsaved m) \<longrightarrow> b = 0 \<or> c = 0)"
    and "st_progress (hd sts) = 0"
    and "\<forall>st \<in> set sts. 0 \<le> st_progress st \<and> st_progress st \<le> 100"
    and "sorted (map st_progress sts)"
proof -
  let ?pe = "progress_entries v tot n"
  let ?vn = "last ?pe"
  have pn: "st_progress ?vn = progress_at tot n" using progress_entries_last [OF v(1)] by simp
  have bn: "0 \<le> progress_at tot n \<and> progress_at tot n \<le> 100" using n by (rule progress_at_bounds)
  show "\<exists>a b c.
           map st_status sts =
             replicate (Suc a) ''running'' @ replicate b ''completed'' @ replicate c ''error'' \<and>
           ((\<forall>m. en \<noteq> Unsaved m) \<longrightarrow> b = 0 \<or> c = 0)"
  proof (cases en)
    case (Failed msg)
    show ?thesis
      by (intro exI [of _ n] exI [of _ 0] exI [of _ 2])
         (simp add: sts_def progress_entries_status tail_entries_status Failed v(2))
  next
    case Finished
    show ?thesis
      by (intro exI [of _ n] exI [of _ 6] exI [of _ 0])
         (simp add: sts_def progress_entries_status tail_entries_status Finished v(2))
  next
    case (Unsaved msg)
    show ?thesis
      by (intro exI [of _ n] exI [of _ 5] exI [of _ 2])
         (simp add: sts_def progress_entries_status tail_entries_status Unsaved v(2))
  qed
  show "st_progress (hd sts) = 0"
    using v(1) by (simp add: sts_def progress_entries_def)
  have pe_vals: "map st_progress ?pe = map (progress_at tot) [0..<Suc n]"
    using v(1) by (rule progress_entries_progress)
  have pe_bound: "\<forall>p \<in> set (map st_progress ?pe). 0 \<le> p \<and> p \<le> progress_at tot n"
  proof
    fix p assume "p \<in> set (map st_progress ?pe)"
    then have "\<exists>k. k \<le> n \<and> p = progress_at tot k"
      unfolding pe_vals by (auto simp: less_Suc_eq_le simp del: upt_Suc)
    then obtain k where "k \<le> n" and "p = progress_at tot k" by blast
    then show "0 \<le> p \<and> p \<le> progress_at tot n"
      using progress_at_mono [of k n tot] progress_at_bounds [of k tot] n by simp
  qed
  have tl_bound: "\<forall>p \<in> set (map st_progress (tail_entries e ?vn en)). progress_at tot n \<le> p \<and> p \<le> 100"
    using bn by (cases en) (auto simp: tail_entries_progress pn)
  show "\<forall>st \<in> set sts. 0 \<le> st_progress st \<and> st_progress st \<le> 100"
  proof
    fix st assume "st \<in> set sts"
    then have "st_progress st \<in> set (map st_progress ?pe) \<or>
        st_progress st \<in> set (map st_progress (tail_entries e ?vn en))"
      by (auto simp: sts_def)
    then show "0 \<le> st_progress st \<and> st_progress st \<le> 100"
      using pe_bound tl_bound bn by force
  qed
  have s1: "sorted (map st_progress ?pe)" unfolding pe_vals by (rule sorted_progress_at)
  have s2: "sorted (map st_progress (tail_entries e ?vn en))"
    using bn by (cases en) (auto simp: tail_entries_progress pn)
  show "sorted (map st_progress sts)"
    using s1 s2 pe_bound tl_bound by (fastforce simp: sts_def sorted_append)
qed

lemma ending_not_unsaved:
  "fault e Save = None \<Longrightarrow> ending_of e scan_id targets ports tm s \<noteq> Unsaved m"
  by (simp add: ending_of_def split: sum.splits option.splits)

lemma live_tasks_le_total:
  "length (discover_hosts e targets) * length ports \<le> length targets * length ports"
  using length_discover_hosts [of e targets] by simp

lemma run_scan_entries:
  "\<exists>n \<le> length (discover_hosts e targets) * length ports.
     entries (run_scan e scan_id targets ports tm s0) scan_id =
       map Some
         (progress_entries (initial_entry e targets ports tm) (length targets * length ports) n @
          tail_entries e
            (last (progress_entries (initial_entry e targets ports tm)
               (length targets * length ports) n))
            (ending_of e scan_id targets ports tm (start_scan e scan_id targets ports tm s0)))"
proof -
  let ?s = "start_scan e scan_id targets ports tm s0"
  have v: "active_scans ?s scan_id = Some (initial_entry e targets ports tm)" by simp
  from execute_scan_trace [OF v, of e targets ports tm] obtain n tl where
    "n \<le> length (discover_hosts e targets) * length ports" and
    "execute_scan e scan_id targets ports tm ?s =
       (?s # snd (run_probes e scan_id targets ports tm ?s)) @ tl" and
    "entries (?s # snd (run_probes e scan_id targets ports tm ?s)) scan_id =
       map Some (progress_entries (initial_entry e targets ports tm) (length targets * length ports) n)" and
    "entries tl scan_id =
       map Some (tail_entries e
         (last (progress_entries (initial_entry e targets ports tm) (length targets * length ports) n))
         (ending_of e scan_id targets ports tm ?s))"
    by blast
  then show ?thesis
    by (intro exI [of _ n]) (simp add: run_scan_def entries_def)
qed

lemma run_scan_final:
  fixes e scan_id targets ports tm s0
  defines "s \<equiv> start_scan e scan_id targets ports tm s0"
  defines "final \<equiv> last (run_scan e scan_id targets ports tm s0)"
  shows "\<exists>w. active_scans final scan_id = Some w \<and> st_results w = [] \<and>
     (case ending_of e scan_id targets ports tm s of
        Failed msg \<Rightarrow>
          st_status w = ''error'' \<and> st_error w = Some msg \<and>
          scan_results final = scan_results s0 \<and> results_files final = results_files s0
      | Finished \<Rightarrow>
          st_status w = ''completed'' \<and> st_progress w = 100 \<and>
          (\<exists>r. fst (run_probes e scan_id targets ports tm s) = Inr r \<and>
             scan_results final =
               (scan_results s0)(scan_id \<mapsto> final_record e scan_id targets ports tm r) \<and>
             results_files final =
               (results_files s0)(scan_id \<mapsto> final_record e scan_id targets ports tm r))
      | Unsaved msg \<Rightarrow>
          st_status w = ''error'' \<and> st_error w = Some msg \<and>
          (\<exists>r. fst (run_probes e scan_id targets ports tm s) = Inr r \<and>
             scan_results final =
               (scan_results s0)(scan_id \<mapsto> final_record e scan_id targets ports tm r) \<and>
             results_files final = results_files s0))"
proof -
  let ?v = "initial_entry e targets ports tm"
  let ?T = "length targets * length ports"
  let ?en = "ending_of e scan_id targets ports tm s"
  have v: "active_scans s scan_id = Some ?v" by (simp add: s_def)
  from execute_scan_trace [OF v, of e targets ports tm] obtain n tl where
    ex: "execute_scan e scan_id targets ports tm s =
       (s # snd (run_probes e scan_id targets ports tm s)) @ tl" and
    tl: "entries tl scan_id = map Some (tail_entries e (last (progress_entries ?v ?T n)) ?en)" and
    stores: "case ?en of
              Failed msg \<Rightarrow>
                (\<forall>x \<in> set tl. scan_results x = scan_results s \<and> results_files x = results_files s)
            | Finished \<Rightarrow>
                (\<exists>r. fst (run_probes e scan_id targets ports tm s) = Inr r \<and>
                   scan_results (last tl) =
                     (scan_results s)(scan_id \<mapsto> final_record e scan_id targets ports tm r) \<and>
                   results_files (last tl) =
                     (results_files s)(scan_id \<mapsto> final_record e scan_id targets ports tm r))
            | Unsaved msg \<Rightarrow>
                (\<exists>r. fst (run_probes e scan_id targets ports tm s) = Inr r \<and>
                   scan_results (last tl) =
                     (scan_results s)(scan_id \<mapsto> final_record e scan_id targets ports tm r) \<and>
                   results_files (last tl) = results_files s)"
    by blast
  let ?vn = "last (progress_entries ?v ?T n)"
  let ?w = "last (tail_entries e ?vn ?en)"
  have tl_ne: "tl \<noteq> []"
    using tl tail_entries_last [of e ?vn ?en] by (auto simp: entries_def)
  have fin: "final = last tl"
    using tl_ne by (simp add: final_def run_scan_def s_def [symmetric] ex)
  have w: "active_scans final scan_id = Some ?w"
    unfolding fin using last_entries [OF tl_ne tl] .
  have res: "st_results ?w = []"
    using tail_entries_last [of e ?vn ?en] progress_entries_last [of ?v ?T n] by simp
  have in_tl: "last tl \<in> set tl" using tl_ne by simp
  have s_stores: "scan_results s = scan_results s0" "results_files s = results_files s0"
    by (simp_all add: s_def)
  have "case ?en of
        Failed msg \<Rightarrow>
          st_status ?w = ''error'' \<and> st_error ?w = Some msg \<and>
          scan_results final = scan_results s0 \<and> results_files final = results_files s0
      | Finished \<Rightarrow>
          st_status ?w = ''completed'' \<and> st_progress ?w = 100 \<and>
          (\<exists>r. fst (run_probes e scan_id targets ports tm s) = Inr r \<and>
             scan_results final =
               (scan_results s0)(scan_id \<mapsto> final_record e scan_id targets ports tm r) \<and>
             results_files final =
               (results_files s0)(scan_id \<mapsto> final_record e scan_id targets ports tm r))
      | Unsaved msg \<Rightarrow>
          st_status ?w = ''error'' \<and> st_error ?w = Some msg \<and>
          (\<exists>r. fst (run_probes e scan_id targets ports tm s) = Inr r \<and>
             scan_results final =
               (scan_results s0)(scan_id \<mapsto> final_record e scan_id targets ports tm r) \<and>
             results_files final = results_files s0)"
    using stores tail_entries_last [of e ?vn ?en] in_tl
    by (cases ?en) (simp_all add: fin s_stores)
  with w res show ?thesis by blast
qed

lemma run_scan_states:
  assumes "x \<in> set (run_scan e scan_id targets ports tm s0)"
  shows "\<exists>w. active_scans x scan_id = Some w \<and> st_results w = [] \<and>
     (st_status w = ''running'' \<longrightarrow>
        scan_results x = scan_results s0 \<and> results_files x = results_files s0)"
proof -
  let ?s = "start_scan e scan_id targets ports tm s0"
  let ?v = "initial_entry e targets ports tm"
  let ?T = "length targets * length ports"
  let ?en = "ending_of e scan_id targets ports tm ?s"
  have v: "active_scans ?s scan_id = Some ?v" by simp
  from execute_scan_trace [OF v, of e targets ports tm] obtain n tl where
    ex: "execute_scan e scan_id targets ports tm ?s =
       (?s # snd (run_probes e scan_id targets ports tm ?s)) @ tl" and
    pre: "entries (?s # snd (run_probes e scan_id targets ports tm ?s)) scan_id =
       map Some (progress_entries ?v ?T n)" and
    pre_stores: "\<forall>x \<in> set (?s # snd (run_probes e scan_id targets ports tm ?s)).
       scan_results x = scan_results ?s \<and> results_files x = results_files ?s" and
    tl: "entries tl scan_id = map Some (tail_entries e (last (progress_entries ?v ?T n)) ?en)"
    by blast
  from assms have "x \<in> set (?s # snd (run_probes e scan_id targets ports tm ?s)) \<or> x \<in> set tl"
    by (simp add: run_scan_def ex)
  then show ?thesis
  proof
    assume a: "x \<in> set (?s # snd (run_probes e scan_id targets ports tm ?s))"
    from entries_member [OF pre a] obtain w where
      "w \<in> set (progress_entries ?v ?T n)" and "active_scans x scan_id = Some w" by blast
    moreover from this have "st_results w = []"
      using progress_entries_results [of w ?v ?T n] by simp
    moreover have "scan_results x = scan_results s0 \<and> results_files x = results_files s0"
      using pre_stores a by auto
    ultimately show ?thesis by blast
  next
    assume a: "x \<in> set tl"
    from entries_member [OF tl a] obtain w where
      w: "w \<in> set (tail_entries e (last (progress_entries ?v ?T n)) ?en)" and
      x: "active_scans x scan_id = Some w" by blast
    from tail_entries_fields [OF w] progress_entries_last [of ?v ?T n]
    have "st_results w = []" and "st_status w \<noteq> ''running''" by auto
    with x show ?thesis by blast
  qed
qed

lemma get_scan_results_stores:
  "scan_results x = scan_results y \<Longrightarrow> results_files x = results_files y \<Longrightarrow>
   fst (get_scan_results x scan_id) = fst (get_scan_results y scan_id)"
  by (simp add: get_scan_results_def split: option.splits)

lemma run_scan_no_fault:
  assumes "\<forall>st. fault e st = None"
  shows "\<exists>w. active_scans (last (run_scan e scan_id targets ports tm s0)) scan_id = Some w \<and>
           st_status w = ''completed'' \<and> st_progress w = 100"
proof -
  let ?s = "start_scan e scan_id targets ports tm s0"
  have "\<exists>r. fst (run_probes e scan_id targets ports tm ?s) = Inr r"
    using assms run_probes_no_fault [of e scan_id targets ports tm ?s] by simp
  then have en: "ending_of e scan_id targets ports tm ?s = Finished"
    using assms by (auto simp: ending_of_def)
  from run_scan_final [of e scan_id targets ports tm s0] show ?thesis
    by (auto simp: en)
qed

lemma run_scan_entries_full:
  "\<exists>n \<le> length (discover_hosts e targets) * length ports.
     entries (run_scan e scan_id targets ports tm s0) scan_id =
       map Some
         (progress_entries (initial_entry e targets ports tm) (length targets * length ports) n @
          tail_entries e
            (last (progress_entries (initial_entry e targets ports tm)
               (length targets * length ports) n))
            (ending_of e scan_id targets ports tm (start_scan e scan_id targets ports tm s0))) \<and>
     (\<forall>r. fst (run_probes e scan_id targets ports tm (start_scan e scan_id targets ports tm s0)) = Inr r \<longrightarrow>
        n = length (discover_hosts e targets) * length ports)"
proof -
  let ?s = "start_scan e scan_id targets ports tm s0"
  have v: "active_scans ?s scan_id = Some (initial_entry e targets ports tm)" by simp
  from execute_scan_trace [OF v, of e targets ports tm] obtain n tl where
    "n \<le> length (discover_hosts e targets) * length ports" and
    "execute_scan e scan_id targets ports tm ?s =
       (?s # snd (run_probes e scan_id targets ports tm ?s)) @ tl" and
    "entries (?s # snd (run_probes e scan_id targets ports tm ?s)) scan_id =
       map Some (progress_entries (initial_entry e targets ports tm) (length targets * length ports) n)" and
    "entries tl scan_id =
       map Some (tail_entries e
         (last (progress_entries (initial_entry e targets ports tm) (length targets * length ports) n))
         (ending_of e scan_id targets ports tm ?s))" and
    "\<forall>r. fst (run_probes e scan_id targets ports tm ?s) = Inr r \<longrightarrow>
        n = length (discover_hosts e targets) * length ports"
    by blast
  then show ?thesis
    by (intro exI [of _ n]) (simp add: run_scan_def entries_def)
qed

lemma length_progress_entries: "length (progress_entries v tot n) = Suc n"
  by (simp add: progress_entries_def del: upt_Suc)

lemma lifecycle_shape:
  fixes e :: env and en :: ending and tot n :: nat
  assumes v: "st_progress v = 0" "st_status v = ''running''"
  defines "sts \<equiv> progress_entries v tot n @ tail_entries e (last (progress_entries v tot n)) en"
  shows "map st_status sts =
           replicate (Suc n) ''running'' @
           replicate (case en of Failed m \<Rightarrow> 0 | Finished \<Rightarrow> 6 | Unsaved m \<Rightarrow> 5) ''completed'' @
           replicate (case en of Failed m \<Rightarrow> 2 | Finished \<Rightarrow> 0 | Unsaved m \<Rightarrow> 2) ''error''"
    and "st_status (sts ! n) = ''running''"
    and "st_progress (sts ! n) = progress_at tot n"
    and "en \<noteq> Finished \<Longrightarrow> st_status (last sts) = ''error''"
    and "(\<forall>m. en \<noteq> Failed m) \<Longrightarrow> st_progress (last sts) = 100"
    and "en = Failed m \<or> en = Unsaved m \<Longrightarrow> st_error (last sts) = Some m"
proof -
  let ?pe = "progress_entries v tot n"
  show "map st_status sts =
           replicate (Suc n) ''running'' @
           replicate (case en of Failed m \<Rightarrow> 0 | Finished \<Rightarrow> 6 | Unsaved m \<Rightarrow> 5) ''completed'' @
           replicate (case en of Failed m \<Rightarrow> 2 | Finished \<Rightarrow> 0 | Unsaved m \<Rightarrow> 2) ''error''"
    by (cases en) (simp_all add: sts_def progress_entries_status tail_entries_status v(2))
  have nth: "sts ! n = last ?pe"
  proof -
    have "sts ! n = ?pe ! n" by (simp add: sts_def nth_append length_progress_entries)
    also have "\<dots> = last ?pe"
      using last_conv_nth [of ?pe] by (simp add: length_progress_entries)
    finally show ?thesis .
  qed
  show "st_status (sts ! n) = ''running''"
    using progress_entries_last [OF v(1), of tot n] v(2) by (simp add: nth)
  show "st_progress (sts ! n) = progress_at tot n"
    using progress_entries_last [OF v(1), of tot n] by (simp add: nth)
  have last: "last sts = last (tail_entries e (last ?pe) en)"
    using tail_entries_last [of e "last ?pe" en] by (simp add: sts_def)
  show "en \<noteq> Finished \<Longrightarrow> st_status (last sts) = ''error''"
    using tail_entries_last [of e "last ?pe" en] by (cases en) (simp_all add: last)
  show "(\<forall>m. en \<noteq> Failed m) \<Longrightarrow> st_progress (last sts) = 100"
    by (cases en)
       (simp_all add: last tail_entries_def error_entries_def done_entries_def Let_def)
  show "en = Failed m \<or> en = Unsaved m \<Longrightarrow> st_error (last sts) = Some m"
    using tail_entries_last [of e "last ?pe" en] by (cases en) (auto simp: last)
qed

lemma progress_at_full: "0 < tot \<Longrightarrow> progress_at tot tot = 100"
  by (simp add: progress_at_def)

text \<open>
  C2. The denominator of the progress fraction is \<open>len(targets) * len(ports)\<close>, computed on
  line 83 before discovery, whatever the number of live hosts. The division of line 112
  never raises ZeroDivisionError. When discovery and submission do not fail, the progress
  values written while the futures are awaited are \<open>k / (len(targets) * len(ports)) * 100\<close>
  for k from 1 to the number of live hosts times the number of ports. When the denominator
  is zero no future exists and no progress is written. When nothing fails, the scan ends
  completed with progress 100, set by line 128.
\<close>

theorem progress_denominator:
  "fst (run_probes e scan_id targets ports tm s) \<noteq> Inl ZeroDivisionError \<and>
   (fault e Discovery = None \<and> (\<forall>k. fault e (Submit k) = None) \<longrightarrow>
      map (\<lambda>x. map_option st_progress (active_scans x scan_id))
        (snd (run_probes e scan_id targets ports tm (start_scan e scan_id targets ports tm s0))) =
      map (\<lambda>k. Some ((of_nat k / of_nat (length targets * length ports)) * 100))
        [1..<Suc (length (discover_hosts e targets) * length ports)]) \<and>
   (length targets * length ports = 0 \<longrightarrow>
      snd (run_probes e scan_id targets ports tm s) = []) \<and>
   ((\<forall>st. fault e st = None) \<longrightarrow>
      (\<exists>w. active_scans (last (run_scan e scan_id targets ports tm s0)) scan_id = Some w \<and>
           st_status w = ''completed'' \<and> st_progress w = 100))"
proof (intro conjI impI)
  show "fst (run_probes e scan_id targets ports tm s) \<noteq> Inl ZeroDivisionError"
    by (rule run_probes_no_zero_division)
next
  let ?s = "start_scan e scan_id targets ports tm s0"
  let ?T = "length targets * length ports"
  let ?L = "length (discover_hosts e targets) * length ports"
  assume a: "fault e Discovery = None \<and> (\<forall>k. fault e (Submit k) = None)"
  then have inr: "fst (run_probes e scan_id targets ports tm ?s) =
      Inr (fold (write_result e tm) (futures_of (discover_hosts e targets) ports)
             (init_targets (discover_hosts e targets) []))"
    using run_probes_no_fault [of e scan_id targets ports tm ?s] by blast
  from run_probes_shape [of e targets ports scan_id tm ?s] obtain n where
    sh: "snd (run_probes e scan_id targets ports tm ?s) =
       map (\<lambda>k. set_progress scan_id ?T k ?s) [1..<Suc n]" and
    full: "\<forall>r. fst (run_probes e scan_id targets ports tm ?s) = Inr r \<longrightarrow> n = ?L"
    by blast
  have n: "n = ?L" using full inr by blast
  show "map (\<lambda>x. map_option st_progress (active_scans x scan_id))
        (snd (run_probes e scan_id targets ports tm ?s)) =
      map (\<lambda>k. Some ((of_nat k / of_nat ?T) * 100)) [1..<Suc ?L]"
    unfolding sh n
    by (simp add: set_progress_def progress_at_def comp_def del: upt_Suc)
next
  assume z: "length targets * length ports = 0"
  from run_probes_shape [of e targets ports scan_id tm s] obtain n where
    n: "n \<le> length (discover_hosts e targets) * length ports" and
    sh: "snd (run_probes e scan_id targets ports tm s) =
       map (\<lambda>k. set_progress scan_id (length targets * length ports) k s) [1..<Suc n]"
    by blast
  have "n \<le> length targets * length ports"
    using n live_tasks_le_total [of e targets ports] by linarith
  with z have "n = 0" by (metis le_zero_eq)
  then show "snd (run_probes e scan_id targets ports tm s) = []" by (simp add: sh)
next
  let ?s = "start_scan e scan_id targets ports tm s0"
  assume a: "\<forall>st. fault e st = None"
  then have "\<exists>r. fst (run_probes e scan_id targets ports tm ?s) = Inr r"
    using run_probes_no_fault [of e scan_id targets ports tm ?s] by simp
  then have en: "ending_of e scan_id targets ports tm ?s = Finished"
    using a by (auto simp: ending_of_def)
  from run_scan_final [of e scan_id targets ports tm s0]
  show "\<exists>w. active_scans (last (run_scan e scan_id targets ports tm s0)) scan_id = Some w \<and>
           st_status w = ''completed'' \<and> st_progress w = 100"
    by (auto simp: en)
qed

theorem progress_denominator_witness:
  "fault env_lab Discovery = None \<and> (\<forall>k. fault env_lab (Submit k) = None) \<and>
   (\<forall>st. fault env_lab st = None) \<and>
   map (\<lambda>x. map_option st_progress (active_scans x ''scan-1''))
     (snd (run_probes env_lab ''scan-1'' [''10.0.0.5'', ''10.0.0.6''] [80] 5
        (start_scan env_lab ''scan-1'' [''10.0.0.5'', ''10.0.0.6''] [80] 5 init_scanner))) =
     [Some 50] \<and>
   length ([] :: string list) * length [80 :: int] = 0 \<and>
   snd (run_probes env_lab ''scan-1'' [] [80] 5 init_scanner) = [] \<and>
   (\<exists>w. active_scans (last (run_scan env_lab ''scan-1'' [] [80] 5 init_scanner)) ''scan-1'' = Some w \<and>
        st_status w = ''completed'' \<and> st_progress w = 100)"
proof -
  have h: "\<forall>st. fault env_lab st = None" by (simp add: env_lab_def)
  have live: "length (discover_hosts env_lab [''10.0.0.5'', ''10.0.0.6'']) = 1" by code_simp
  note a = progress_denominator [of env_lab "''scan-1''" "[''10.0.0.5'', ''10.0.0.6'']" "[80]" 5
      init_scanner init_scanner]
  note b = progress_denominator [of env_lab "''scan-1''" "[]" "[80]" 5 init_scanner init_scanner]
  from a h have "map (\<lambda>x. map_option st_progress (active_scans x ''scan-1''))
     (snd (run_probes env_lab ''scan-1'' [''10.0.0.5'', ''10.0.0.6''] [80] 5
        (start_scan env_lab ''scan-1'' [''10.0.0.5'', ''10.0.0.6''] [80] 5 init_scanner))) =
     map (\<lambda>k. Some ((of_nat k / of_nat (length [''10.0.0.5'', ''10.0.0.6''] * length [80::int])) * 100))
        [1..<Suc (length (discover_hosts env_lab [''10.0.0.5'', ''10.0.0.6'']) * length [80::int])]"
    by blast
  then have p: "map (\<lambda>x. map_option st_progress (active_scans x ''scan-1''))
     (snd (run_probes env_lab ''scan-1'' [''10.0.0.5'', ''10.0.0.6''] [80] 5
        (start_scan env_lab ''scan-1'' [''10.0.0.5'', ''10.0.0.6''] [80] 5 init_scanner))) = [Some 50]"
    by (simp add: live)
  have z: "length ([] :: string list) * length [80 :: int] = 0" by simp
  from b z have e: "snd (run_probes env_lab ''scan-1'' [] [80] 5 init_scanner) = []" by blast
  from b h have c: "\<exists>w. active_scans (last (run_scan env_lab ''scan-1'' [] [80] 5 init_scanner)) ''scan-1'' = Some w \<and>
        st_status w = ''completed'' \<and> st_progress w = 100" by blast
  from h p z e c show ?thesis by blast
qed

text \<open>
  With two targets of which one is live and one port, the number of live hosts times the
  number of ports is 1, and the progress written after the only probe is 50, not 100.
\<close>

theorem progress_denominator_counterexample:
  "length (discover_hosts env_lab [''10.0.0.5'', ''10.0.0.6'']) * length [80::int] = 1 \<and>
   map (\<lambda>x. map_option st_progress (active_scans x ''scan-1''))
     (run_scan env_lab ''scan-1'' [''10.0.0.5'', ''10.0.0.6''] [80] 5 init_scanner) =
   [Some 0, Some 50, Some 50, Some 100, Some 100, Some 100, Some 100, Some 100]"
  by code_simp

text \<open>
  C3. When the execution fails before line 133 (discovery, submission or waiting raises, or
  anomaly detection raises after every probe has finished), the scan's entry ends with
  status error, the message attached and an empty results field, and \<open>get_scan_results\<close>
  returns what it returned before the scan was started: nothing of the results collected
  is readable. A failure of discovery is such a failure. Only when saving the file fails,
  after line 133 has stored the record, does \<open>get_scan_results\<close> return the record, with
  the results of every probe.
\<close>

theorem failure_leaves_results_unstored:
  fixes e scan_id targets ports tm s0
  defines "s \<equiv> start_scan e scan_id targets ports tm s0"
  defines "final \<equiv> last (run_scan e scan_id targets ports tm s0)"
  shows
  "((fst (run_probes e scan_id targets ports tm s) = Inl err \<and> msg = str_error err) \<or>
    (fst (run_probes e scan_id targets ports tm s) = Inr r \<and> fault e Detect = Some msg) \<longrightarrow>
      (\<exists>w. fst (get_scan_status final scan_id) = Some (Entry w) \<and>
           st_status w = ''error'' \<and> st_error w = Some msg \<and> st_results w = []) \<and>
      fst (get_scan_results final scan_id) = fst (get_scan_results s0 scan_id)) \<and>
   (fault e Discovery = Some msg \<longrightarrow>
      fst (run_probes e scan_id targets ports tm s) = Inl (Fault msg)) \<and>
   (fst (run_probes e scan_id targets ports tm s) = Inr r \<and> fault e Detect = None \<and>
    fault e Save = Some msg \<longrightarrow>
      (\<exists>w. fst (get_scan_status final scan_id) = Some (Entry w) \<and>
           st_status w = ''error'' \<and> st_error w = Some msg \<and> st_results w = []) \<and>
      (\<exists>record. fst (get_scan_results final scan_id) = Some record \<and> sr_results record = r))"
proof (intro conjI impI)
  assume a: "(fst (run_probes e scan_id targets ports tm s) = Inl err \<and> msg = str_error err) \<or>
    (fst (run_probes e scan_id targets ports tm s) = Inr r \<and> fault e Detect = Some msg)"
  then have en: "ending_of e scan_id targets ports tm s = Failed msg"
    by (auto simp: ending_of_def)
  from run_scan_final [of e scan_id targets ports tm s0] obtain w where
    w: "active_scans final scan_id = Some w" "st_results w = []"
      "st_status w = ''error''" "st_error w = Some msg"
      "scan_results final = scan_results s0" "results_files final = results_files s0"
    by (auto simp: en s_def [symmetric] final_def [symmetric])
  show "\<exists>w. fst (get_scan_status final scan_id) = Some (Entry w) \<and>
           st_status w = ''error'' \<and> st_error w = Some msg \<and> st_results w = []"
    using w get_scan_status_entry by blast
  show "fst (get_scan_results final scan_id) = fst (get_scan_results s0 scan_id)"
    using w(5,6) by (rule get_scan_results_stores)
next
  assume "fault e Discovery = Some msg"
  then show "fst (run_probes e scan_id targets ports tm s) = Inl (Fault msg)"
    by (simp add: run_probes_def)
next
  assume a: "fst (run_probes e scan_id targets ports tm s) = Inr r \<and> fault e Detect = None \<and>
    fault e Save = Some msg"
  then have en: "ending_of e scan_id targets ports tm s = Unsaved msg"
    by (auto simp: ending_of_def)
  from run_scan_final [of e scan_id targets ports tm s0] a obtain w where
    w: "active_scans final scan_id = Some w" "st_results w = []"
      "st_status w = ''error''" "st_error w = Some msg"
      "scan_results final =
         (scan_results s0)(scan_id \<mapsto> final_record e scan_id targets ports tm r)"
    by (auto simp: en s_def [symmetric] final_def [symmetric])
  show "\<exists>w. fst (get_scan_status final scan_id) = Some (Entry w) \<and>
           st_status w = ''error'' \<and> st_error w = Some msg \<and> st_results w = []"
    using w get_scan_status_entry by blast
  show "\<exists>record. fst (get_scan_results final scan_id) = Some record \<and> sr_results record = r"
    using w(5) by (simp add: get_scan_results_def)
qed

theorem failure_leaves_results_unstored_witness:
  "fst (run_probes env_detect_fails ''scan-1'' [''10.0.0.5''] [22, 80] 5
     (start_scan env_detect_fails ''scan-1'' [''10.0.0.5''] [22, 80] 5 init_scanner)) =
     Inr [(''10.0.0.5'', \<lparr>tr_status = ''scanned'', tr_ports =
            [(22, \<lparr>pr_status = ''closed'', pr_service = ''SSH'', pr_error = None\<rparr>),
             (80, \<lparr>pr_status = ''open'', pr_service = ''HTTP'', pr_error = None\<rparr>)]\<rparr>)] \<and>
   fault env_detect_fails Detect = Some ''detector failed'' \<and>
   (\<exists>w. fst (get_scan_status
          (last (run_scan env_detect_fails ''scan-1'' [''10.0.0.5''] [22, 80] 5 init_scanner)) ''scan-1'') =
          Some (Entry w) \<and>
        st_status w = ''error'' \<and> st_error w = Some ''detector failed'' \<and> st_results w = []) \<and>
   fst (get_scan_results
     (last (run_scan env_detect_fails ''scan-1'' [''10.0.0.5''] [22, 80] 5 init_scanner)) ''scan-1'') = None \<and>
   fault env_discovery_fails Discovery = Some ''tracer failed'' \<and>
   fst (run_probes env_discovery_fails ''scan-1'' [''10.0.0.5''] [22, 80] 5
     (start_scan env_discovery_fails ''scan-1'' [''10.0.0.5''] [22, 80] 5 init_scanner)) =
     Inl (Fault ''tracer failed'') \<and>
   fst (run_probes env_save_fails ''scan-1'' [''10.0.0.5''] [22, 80] 5
     (start_scan env_save_fails ''scan-1'' [''10.0.0.5''] [22, 80] 5 init_scanner)) =
     Inr [(''10.0.0.5'', \<lparr>tr_status = ''scanned'', tr_ports =
            [(22, \<lparr>pr_status = ''closed'', pr_service = ''SSH'', pr_error = None\<rparr>),
             (80, \<lparr>pr_status = ''open'', pr_service = ''HTTP'', pr_error = None\<rparr>)]\<rparr>)] \<and>
   fault env_save_fails Detect = None \<and> fault env_save_fails Save = Some ''disk full'' \<and>
   (\<exists>w. fst (get_scan_status
          (last (run_scan env_save_fails ''scan-1'' [''10.0.0.5''] [22, 80] 5 init_scanner)) ''scan-1'') =
          Some (Entry w) \<and>
        st_status w = ''error'' \<and> st_error w = Some ''disk full'' \<and> st_results w = []) \<and>
   (\<exists>record. fst (get_scan_results
          (last (run_scan env_save_fails ''scan-1'' [''10.0.0.5''] [22, 80] 5 init_scanner)) ''scan-1'') =
          Some record \<and>
        sr_results record =
          [(''10.0.0.5'', \<lparr>tr_status = ''scanned'', tr_ports =
            [(22, \<lparr>pr_status = ''closed'', pr_service = ''SSH'', pr_error = None\<rparr>),
             (80, \<lparr>pr_status = ''open'', pr_service = ''HTTP'', pr_error = None\<rparr>)]\<rparr>)])"
proof -
  let ?r = "[(''10.0.0.5'', \<lparr>tr_status = ''scanned'', tr_ports =
            [(22, \<lparr>pr_status = ''closed'', pr_service = ''SSH'', pr_error = None\<rparr>),
             (80, \<lparr>pr_status = ''open'', pr_service = ''HTTP'', pr_error = None\<rparr>)]\<rparr>)]"
  have d1: "fst (run_probes env_detect_fails ''scan-1'' [''10.0.0.5''] [22, 80] 5
     (start_scan env_detect_fails ''scan-1'' [''10.0.0.5''] [22, 80] 5 init_scanner)) = Inr ?r"
    by code_simp
  have d2: "fault env_detect_fails Detect = Some ''detector failed''"
    by (simp add: env_detect_fails_def)
  have v1: "fault env_discovery_fails Discovery = Some ''tracer failed''"
    by (simp add: env_discovery_fails_def)
  have s1: "fst (run_probes env_save_fails ''scan-1'' [''10.0.0.5''] [22, 80] 5
     (start_scan env_save_fails ''scan-1'' [''10.0.0.5''] [22, 80] 5 init_scanner)) = Inr ?r"
    by code_simp
  have s2: "fault env_save_fails Detect = None" "fault env_save_fails Save = Some ''disk full''"
    by (simp_all add: env_save_fails_def)
  have n: "fst (get_scan_results init_scanner ''scan-1'') = None"
    by (simp add: get_scan_results_def init_scanner_def)
  note a = failure_leaves_results_unstored [of env_detect_fails "''scan-1''" "[''10.0.0.5'']" "[22, 80]" 5
      init_scanner "KeyError []" "''detector failed''" ?r]
  note b = failure_leaves_results_unstored [of env_discovery_fails "''scan-1''" "[''10.0.0.5'']"
      "[22, 80]" 5 init_scanner "KeyError []" "''tracer failed''" ?r]
  note c = failure_leaves_results_unstored [of env_save_fails "''scan-1''" "[''10.0.0.5'']" "[22, 80]" 5
      init_scanner "KeyError []" "''disk full''" ?r]
  from a d1 d2 have a1: "\<exists>w. fst (get_scan_status
          (last (run_scan env_detect_fails ''scan-1'' [''10.0.0.5''] [22, 80] 5 init_scanner)) ''scan-1'') =
          Some (Entry w) \<and>
        st_status w = ''error'' \<and> st_error w = Some ''detector failed'' \<and> st_results w = []"
    and a2: "fst (get_scan_results
     (last (run_scan env_detect_fails ''scan-1'' [''10.0.0.5''] [22, 80] 5 init_scanner)) ''scan-1'') =
       fst (get_scan_results init_scanner ''scan-1'')"
    by blast+
  from b v1 have b1: "fst (run_probes env_discovery_fails ''scan-1'' [''10.0.0.5''] [22, 80] 5
     (start_scan env_discovery_fails ''scan-1'' [''10.0.0.5''] [22, 80] 5 init_scanner)) =
     Inl (Fault ''tracer failed'')"
    by blast
  from c s1 s2 have c1: "\<exists>w. fst (get_scan_status
          (last (run_scan env_save_fails ''scan-1'' [''10.0.0.5''] [22, 80] 5 init_scanner)) ''scan-1'') =
          Some (Entry w) \<and>
        st_status w = ''error'' \<and> st_error w = Some ''disk full'' \<and> st_results w = []"
    and c2: "\<exists>record. fst (get_scan_results
          (last (run_scan env_save_fails ''scan-1'' [''10.0.0.5''] [22, 80] 5 init_scanner)) ''scan-1'') =
          Some record \<and> sr_results record = ?r"
    by blast+
  from a2 n have a3: "fst (get_scan_results
     (last (run_scan env_detect_fails ''scan-1'' [''10.0.0.5''] [22, 80] 5 init_scanner)) ''scan-1'') = None"
    by (rule trans)
  show ?thesis
    by (intro conjI d1 d2 a1 a3 v1 b1 s1 s2 c1 c2)
qed

text \<open>
  Both probes of 10.0.0.5 have finished and their results are collected when anomaly
  detection raises: the entry ends with status error and its message, its results field
  is empty and \<open>get_scan_results\<close> returns None.
\<close>

theorem failure_leaves_results_unstored_counterexample:
  "fst (run_probes env_detect_fails ''scan-1'' [''10.0.0.5''] [22, 80] 5
     (start_scan env_detect_fails ''scan-1'' [''10.0.0.5''] [22, 80] 5 init_scanner)) =
     Inr [(''10.0.0.5'', \<lparr>tr_status = ''scanned'', tr_ports =
            [(22, \<lparr>pr_status = ''closed'', pr_service = ''SSH'', pr_error = None\<rparr>),
             (80, \<lparr>pr_status = ''open'', pr_service = ''HTTP'', pr_error = None\<rparr>)]\<rparr>)] \<and>
   map_option (\<lambda>w. (st_status w, st_error w, st_results w))
     (active_scans (last (run_scan env_detect_fails ''scan-1'' [''10.0.0.5''] [22, 80] 5 init_scanner))
        ''scan-1'') = Some (''error'', Some ''detector failed'', []) \<and>
   fst (get_scan_results
     (last (run_scan env_detect_fails ''scan-1'' [''10.0.0.5''] [22, 80] 5 init_scanner)) ''scan-1'') = None"
  by code_simp

text \<open>
  C4. \<open>get_scan_status\<close> and \<open>get_scan_results\<close> leave the scanner as it was. For a scan id
  known to none of the three stores both return None. In every state of an execution
  \<open>get_scan_status\<close> returns the scan's entry, whose results field is empty, and while the
  status is running \<open>get_scan_results\<close> returns what it returned before the scan was
  started: for a fresh scan id None, not the results collected so far.
\<close>

theorem queries_are_reads:
  "snd (get_scan_status s scan_id) = s \<and> snd (get_scan_results s scan_id) = s \<and>
   (active_scans s scan_id = None \<and> scan_results s scan_id = None \<and>
    results_files s scan_id = None \<longrightarrow>
      fst (get_scan_status s scan_id) = None \<and> fst (get_scan_results s scan_id) = None) \<and>
   (\<forall>x \<in> set (run_scan e scan_id targets ports tm s0).
      \<exists>w. fst (get_scan_status x scan_id) = Some (Entry w) \<and> st_results w = [] \<and>
          (st_status w = ''running'' \<longrightarrow>
             fst (get_scan_results x scan_id) = fst (get_scan_results s0 scan_id)))"
proof (intro conjI impI ballI)
  show "snd (get_scan_status s scan_id) = s"
    by (simp add: get_scan_status_def split: option.splits)
  show "snd (get_scan_results s scan_id) = s"
    by (simp add: get_scan_results_def split: option.splits)
next
  assume a: "active_scans s scan_id = None \<and> scan_results s scan_id = None \<and>
    results_files s scan_id = None"
  then show "fst (get_scan_status s scan_id) = None" by (simp add: get_scan_status_def)
  from a show "fst (get_scan_results s scan_id) = None" by (simp add: get_scan_results_def)
next
  fix x assume "x \<in> set (run_scan e scan_id targets ports tm s0)"
  from run_scan_states [OF this] obtain w where
    w: "active_scans x scan_id = Some w" "st_results w = []"
      "st_status w = ''running'' \<longrightarrow>
         scan_results x = scan_results s0 \<and> results_files x = results_files s0"
    by blast
  show "\<exists>w. fst (get_scan_status x scan_id) = Some (Entry w) \<and> st_results w = [] \<and>
          (st_status w = ''running'' \<longrightarrow>
             fst (get_scan_results x scan_id) = fst (get_scan_results s0 scan_id))"
    using w get_scan_status_entry [OF w(1)] get_scan_results_stores by blast
qed

theorem queries_are_reads_witness:
  "active_scans init_scanner ''scan-9'' = None \<and> scan_results init_scanner ''scan-9'' = None \<and>
   results_files init_scanner ''scan-9'' = None \<and>
   fst (get_scan_status init_scanner ''scan-9'') = None \<and>
   fst (get_scan_results init_scanner ''scan-9'') = None \<and>
   snd (get_scan_status init_scanner ''scan-9'') = init_scanner \<and>
   run_scan env_lab ''scan-1'' [''10.0.0.5''] [22, 80] 5 init_scanner ! 1
     \<in> set (run_scan env_lab ''scan-1'' [''10.0.0.5''] [22, 80] 5 init_scanner) \<and>
   (\<exists>w. fst (get_scan_status
          (run_scan env_lab ''scan-1'' [''10.0.0.5''] [22, 80] 5 init_scanner ! 1) ''scan-1'') =
          Some (Entry w) \<and>
        st_status w = ''running'' \<and> st_progress w = 50 \<and> st_results w = []) \<and>
   fst (get_scan_results
     (run_scan env_lab ''scan-1'' [''10.0.0.5''] [22, 80] 5 init_scanner ! 1) ''scan-1'') = None"
proof -
  let ?run = "run_scan env_lab ''scan-1'' [''10.0.0.5''] [22, 80] 5 init_scanner"
  have u: "active_scans init_scanner ''scan-9'' = None" "scan_results init_scanner ''scan-9'' = None"
    "results_files init_scanner ''scan-9'' = None"
    by (simp_all add: init_scanner_def)
  have n: "fst (get_scan_results init_scanner ''scan-1'') = None"
    by (simp add: get_scan_results_def init_scanner_def)
  note a = queries_are_reads [of init_scanner "''scan-9''" env_lab "[''10.0.0.5'']" "[22, 80]" 5 init_scanner]
  note b = queries_are_reads [of init_scanner "''scan-1''" env_lab "[''10.0.0.5'']" "[22, 80]" 5 init_scanner]
  from a u have a1: "fst (get_scan_status init_scanner ''scan-9'') = None"
    "fst (get_scan_results init_scanner ''scan-9'') = None"
    "snd (get_scan_status init_scanner ''scan-9'') = init_scanner"
    by blast+
  have len: "1 < length ?run" by code_simp
  then have mem: "?run ! 1 \<in> set ?run" by (rule nth_mem)
  have ev: "map_option (\<lambda>v. case v of Entry w \<Rightarrow> (st_status w, st_progress w)
                    | Summary a b c d f \<Rightarrow> (a, b))
     (fst (get_scan_status (?run ! 1) ''scan-1'')) = Some (''running'', 50)"
    by code_simp
  from b mem obtain w where
    w: "fst (get_scan_status (?run ! 1) ''scan-1'') = Some (Entry w)" "st_results w = []"
      "st_status w = ''running'' \<longrightarrow>
         fst (get_scan_results (?run ! 1) ''scan-1'') = fst (get_scan_results init_scanner ''scan-1'')"
    by blast
  from ev w(1) have run: "st_status w = ''running''" "st_progress w = 50" by simp_all
  with w(3) n have r: "fst (get_scan_results (?run ! 1) ''scan-1'') = None" by simp
  have ex: "\<exists>w. fst (get_scan_status (?run ! 1) ''scan-1'') = Some (Entry w) \<and>
        st_status w = ''running'' \<and> st_progress w = 50 \<and> st_results w = []"
    using w(1,2) run by blast
  show ?thesis
    by (intro conjI u a1 mem ex r)
qed

text \<open>
  After the first of two probes has finished, with its result written to the local
  dictionary, the entry shows progress 50 and no results, and \<open>get_scan_results\<close> returns
  None.
\<close>

theorem queries_are_reads_counterexample:
  "scan_port env_lab ''10.0.0.5'' 22 5 [(''10.0.0.5'', \<lparr>tr_status = ''scanned'', tr_ports = []\<rparr>)] =
     Inr [(''10.0.0.5'', \<lparr>tr_status = ''scanned'', tr_ports =
            [(22, \<lparr>pr_status = ''closed'', pr_service = ''SSH'', pr_error = None\<rparr>)]\<rparr>)] \<and>
   map_option (\<lambda>w. (st_status w, st_progress w, st_results w))
     (active_scans (run_scan env_lab ''scan-1'' [''10.0.0.5''] [22, 80] 5 init_scanner ! 1) ''scan-1'') =
     Some (''running'', 50, []) \<and>
   fst (get_scan_results
     (run_scan env_lab ''scan-1'' [''10.0.0.5''] [22, 80] 5 init_scanner ! 1) ''scan-1'') = None"
  by code_simp

text \<open>
  C5. When the scan's entry ends with status completed, \<open>get_scan_results\<close> returns a record
  whose results have exactly the live hosts of discovery as keys, each once; the entry of
  each live host has exactly the scanned ports as keys, each once; the result of each
  port has status open, closed, filtered or error, and status error with the message
  when the probe's \<open>sr1\<close> raised; and the probe of a target that has an entry returns
  without raising.
\<close>

theorem completed_scan_results:
  assumes "fst (get_scan_status (last (run_scan e scan_id targets ports tm s0)) scan_id) =
             Some (Entry w)"
    and "st_status w = ''completed''"
  shows "\<exists>record.
     fst (get_scan_results (last (run_scan e scan_id targets ports tm s0)) scan_id) = Some record \<and>
     fst ` set (sr_results record) = set (discover_hosts e targets) \<and>
     distinct (map fst (sr_results record)) \<and>
     (\<forall>t \<in> set (discover_hosts e targets).
        \<exists>tr. map_of (sr_results record) t = Some tr \<and>
          fst ` set (tr_ports tr) = set ports \<and> distinct (map fst (tr_ports tr)) \<and>
          (\<forall>p \<in> set ports.
             \<exists>pr. map_of (tr_ports tr) p = Some pr \<and>
               pr_status pr \<in> {''open'', ''closed'', ''filtered'', ''error''} \<and>
               (\<forall>msg. sr1 e t p tm = Raised msg \<longrightarrow>
                  pr_status pr = ''error'' \<and> pr_error pr = Some msg) \<and>
               (\<forall>results. t \<in> fst ` set results \<longrightarrow>
                  (\<exists>results'. scan_port e t p tm results = Inr results'))))"
proof -
  let ?s = "start_scan e scan_id targets ports tm s0"
  let ?final = "last (run_scan e scan_id targets ports tm s0)"
  let ?live = "discover_hosts e targets"
  let ?r = "fold (write_result e tm) (futures_of ?live ports) (init_targets ?live [])"
  from run_scan_final [of e scan_id targets ports tm s0] obtain w' where
    w': "active_scans ?final scan_id = Some w'" and
    cases: "case ending_of e scan_id targets ports tm ?s of
        Failed msg \<Rightarrow> st_status w' = ''error''
      | Finished \<Rightarrow>
          (\<exists>r. fst (run_probes e scan_id targets ports tm ?s) = Inr r \<and>
             scan_results ?final =
               (scan_results s0)(scan_id \<mapsto> final_record e scan_id targets ports tm r))
      | Unsaved msg \<Rightarrow> st_status w' = ''error''"
    by (cases "ending_of e scan_id targets ports tm ?s") auto
  have "w' = w" using assms(1) get_scan_status_entry [OF w'] by simp
  then have "st_status w' = ''completed''" using assms(2) by simp
  with cases obtain r where
    r: "fst (run_probes e scan_id targets ports tm ?s) = Inr r" and
    stored: "scan_results ?final =
               (scan_results s0)(scan_id \<mapsto> final_record e scan_id targets ports tm r)"
    by (cases "ending_of e scan_id targets ports tm ?s") auto
  have r_eq: "r = ?r" using run_probes_Inr [OF r] by simp
  let ?rec = "final_record e scan_id targets ports tm r"
  have get: "fst (get_scan_results ?final scan_id) = Some ?rec"
    by (simp add: get_scan_results_def stored)
  have keys: "fst ` set (sr_results ?rec) = set ?live"
    using final_results(1) [of e tm ?live ports] by (simp add: r_eq)
  have dist: "distinct (map fst (sr_results ?rec))"
    using final_results(2) [of e tm ?live ports] by (simp add: r_eq)
  have per_target: "\<forall>t \<in> set ?live.
        \<exists>tr. map_of (sr_results ?rec) t = Some tr \<and>
          fst ` set (tr_ports tr) = set ports \<and> distinct (map fst (tr_ports tr)) \<and>
          (\<forall>p \<in> set ports.
             \<exists>pr. map_of (tr_ports tr) p = Some pr \<and>
               pr_status pr \<in> {''open'', ''closed'', ''filtered'', ''error''} \<and>
               (\<forall>msg. sr1 e t p tm = Raised msg \<longrightarrow>
                  pr_status pr = ''error'' \<and> pr_error pr = Some msg) \<and>
               (\<forall>results. t \<in> fst ` set results \<longrightarrow>
                  (\<exists>results'. scan_port e t p tm results = Inr results')))"
  proof
    fix t assume t: "t \<in> set ?live"
    from final_results(3) [OF t, of e tm ports] obtain tr where
      tr: "map_of ?r t = Some tr" "fst ` set (tr_ports tr) = set ports"
        "distinct (map fst (tr_ports tr))"
        "\<forall>p \<in> set ports. map_of (tr_ports tr) p = Some (probe_value e t p tm)"
      by blast
    have "\<forall>p \<in> set ports.
             \<exists>pr. map_of (tr_ports tr) p = Some pr \<and>
               pr_status pr \<in> {''open'', ''closed'', ''filtered'', ''error''} \<and>
               (\<forall>msg. sr1 e t p tm = Raised msg \<longrightarrow>
                  pr_status pr = ''error'' \<and> pr_error pr = Some msg) \<and>
               (\<forall>results. t \<in> fst ` set results \<longrightarrow>
                  (\<exists>results'. scan_port e t p tm results = Inr results'))"
    proof
      fix p assume p: "p \<in> set ports"
      have a: "map_of (tr_ports tr) p = Some (probe_value e t p tm)" using tr(4) p by blast
      have b: "pr_status (probe_value e t p tm) \<in> {''open'', ''closed'', ''filtered'', ''error''}"
        by (rule probe_value_status)
      have c: "\<forall>msg. sr1 e t p tm = Raised msg \<longrightarrow>
          pr_status (probe_value e t p tm) = ''error'' \<and> pr_error (probe_value e t p tm) = Some msg"
        by (simp add: probe_value_def error_result_def)
      have d: "\<forall>results. t \<in> fst ` set results \<longrightarrow>
          (\<exists>results'. scan_port e t p tm results = Inr results')"
      proof (intro allI impI)
        fix results :: results_dict
        assume "t \<in> fst ` set results"
        then obtain x where "map_of results t = Some x"
          by (metis map_of_eq_None_iff not_Some_eq)
        then show "\<exists>results'. scan_port e t p tm results = Inr results'"
          using scan_port_present by blast
      qed
      show "\<exists>pr. map_of (tr_ports tr) p = Some pr \<and>
               pr_status pr \<in> {''open'', ''closed'', ''filtered'', ''error''} \<and>
               (\<forall>msg. sr1 e t p tm = Raised msg \<longrightarrow>
                  pr_status pr = ''error'' \<and> pr_error pr = Some msg) \<and>
               (\<forall>results. t \<in> fst ` set results \<longrightarrow>
                  (\<exists>results'. scan_port e t p tm results = Inr results'))"
        using a b c d by blast
    qed
    with tr show "\<exists>tr. map_of (sr_results ?rec) t = Some tr \<and>
          fst ` set (tr_ports tr) = set ports \<and> distinct (map fst (tr_ports tr)) \<and>
          (\<forall>p \<in> set ports.
             \<exists>pr. map_of (tr_ports tr) p = Some pr \<and>
               pr_status pr \<in> {''open'', ''closed'', ''filtered'', ''error''} \<and>
               (\<forall>msg. sr1 e t p tm = Raised msg \<longrightarrow>
                  pr_status pr = ''error'' \<and> pr_error pr = Some msg) \<and>
               (\<forall>results. t \<in> fst ` set results \<longrightarrow>
                  (\<exists>results'. scan_port e t p tm results = Inr results')))"
      by (intro exI [of _ tr]) (simp add: r_eq)
  qed
  show ?thesis
    using get keys dist per_target by (intro exI [of _ ?rec]) blast
qed

theorem completed_scan_results_witness:
  "(\<exists>w. fst (get_scan_status (last (run_scan env_lab ''scan-1'' [''10.0.0.5'', ''10.0.0.6''] [22, 23, 80] 5
          init_scanner)) ''scan-1'') = Some (Entry w) \<and> st_status w = ''completed'') \<and>
   discover_hosts env_lab [''10.0.0.5'', ''10.0.0.6''] = [''10.0.0.5''] \<and>
   sr1 env_lab ''10.0.0.5'' 23 5 = Raised ''Network is unreachable'' \<and>
   (\<exists>record. fst (get_scan_results (last (run_scan env_lab ''scan-1'' [''10.0.0.5'', ''10.0.0.6'']
         [22, 23, 80] 5 init_scanner)) ''scan-1'') = Some record \<and>
      fst ` set (sr_results record) = set (discover_hosts env_lab [''10.0.0.5'', ''10.0.0.6'']) \<and>
      distinct (map fst (sr_results record))) \<and>
   map_option sr_results (fst (get_scan_results
     (last (run_scan env_lab ''scan-1'' [''10.0.0.5'', ''10.0.0.6''] [22, 23, 80] 5 init_scanner))
     ''scan-1'')) =
     Some [(''10.0.0.5'', \<lparr>tr_status = ''scanned'', tr_ports =
            [(22, \<lparr>pr_status = ''closed'', pr_service = ''SSH'', pr_error = None\<rparr>),
             (23, \<lparr>pr_status = ''error'', pr_service = ''Telnet'',
                   pr_error = Some ''Network is unreachable''\<rparr>),
             (80, \<lparr>pr_status = ''open'', pr_service = ''HTTP'', pr_error = None\<rparr>)]\<rparr>)]"
proof -
  let ?final = "last (run_scan env_lab ''scan-1'' [''10.0.0.5'', ''10.0.0.6''] [22, 23, 80] 5 init_scanner)"
  have nf: "\<forall>st. fault env_lab st = None" by (simp add: env_lab_def)
  from run_scan_no_fault [OF nf, of "''scan-1''" "[''10.0.0.5'', ''10.0.0.6'']" "[22, 23, 80]" 5 init_scanner]
  obtain w where w: "active_scans ?final ''scan-1'' = Some w" "st_status w = ''completed''"
    by blast
  have h: "fst (get_scan_status ?final ''scan-1'') = Some (Entry w)"
    using w(1) by (rule get_scan_status_entry)
  from completed_scan_results [OF h w(2)] have
    c: "\<exists>record. fst (get_scan_results ?final ''scan-1'') = Some record \<and>
      fst ` set (sr_results record) = set (discover_hosts env_lab [''10.0.0.5'', ''10.0.0.6'']) \<and>
      distinct (map fst (sr_results record))"
    by blast
  have hx: "\<exists>w. fst (get_scan_status ?final ''scan-1'') = Some (Entry w) \<and> st_status w = ''completed''"
    using h w(2) by blast
  have d: "discover_hosts env_lab [''10.0.0.5'', ''10.0.0.6''] = [''10.0.0.5'']" by code_simp
  have r: "sr1 env_lab ''10.0.0.5'' 23 5 = Raised ''Network is unreachable''" by code_simp
  have ev: "map_option sr_results (fst (get_scan_results ?final ''scan-1'')) =
     Some [(''10.0.0.5'', \<lparr>tr_status = ''scanned'', tr_ports =
            [(22, \<lparr>pr_status = ''closed'', pr_service = ''SSH'', pr_error = None\<rparr>),
             (23, \<lparr>pr_status = ''error'', pr_service = ''Telnet'',
                   pr_error = Some ''Network is unreachable''\<rparr>),
             (80, \<lparr>pr_status = ''open'', pr_service = ''HTTP'', pr_error = None\<rparr>)]\<rparr>)]"
    by code_simp
  show ?thesis by (intro conjI hx d r c ev)
qed

text \<open>
  C6. Polled after every write of an execution, \<open>get_scan_status\<close> returns the scan's entry.
  The statuses read are running one or more times, then completed any number of times,
  then error any number of times; when saving the file does not fail, completed and error
  do not both occur. The progress starts at 0, stays between 0 and 100 and never
  decreases. A scan that ends completed ends with progress 100. When every probe has
  finished, anomaly detection does not fail and saving the file fails, the status is read
  completed and then error, and the scan ends with status error, the message and progress
  100. When discovery and submission do not fail, every target is live and there is at
  least one target and one port, the last entry read with status running has progress
  100.
\<close>

theorem scan_lifecycle:
  "\<exists>sts a b c.
     map (\<lambda>x. fst (get_scan_status x scan_id)) (run_scan e scan_id targets ports tm s0) =
       map (\<lambda>st. Some (Entry st)) sts \<and>
     map st_status sts =
       replicate (Suc a) ''running'' @ replicate b ''completed'' @ replicate c ''error'' \<and>
     (fault e Save = None \<longrightarrow> b = 0 \<or> c = 0) \<and>
     st_progress (hd sts) = 0 \<and>
     (\<forall>st \<in> set sts. 0 \<le> st_progress st \<and> st_progress st \<le> 100) \<and>
     sorted (map st_progress sts) \<and>
     (st_status (last sts) = ''completed'' \<longrightarrow> st_progress (last sts) = 100) \<and>
     (\<forall>r msg.
        fst (run_probes e scan_id targets ports tm (start_scan e scan_id targets ports tm s0)) = Inr r \<and>
        fault e Detect = None \<and> fault e Save = Some msg \<longrightarrow>
          0 < b \<and> 0 < c \<and> st_status (last sts) = ''error'' \<and>
          st_error (last sts) = Some msg \<and> st_progress (last sts) = 100) \<and>
     (fault e Discovery = None \<and> (\<forall>k. fault e (Submit k) = None) \<and>
      discover_hosts e targets = targets \<and> targets \<noteq> [] \<and> ports \<noteq> [] \<longrightarrow>
        st_status (sts ! a) = ''running'' \<and> st_progress (sts ! a) = 100)"
proof -
  let ?s = "start_scan e scan_id targets ports tm s0"
  let ?v = "initial_entry e targets ports tm"
  let ?T = "length targets * length ports"
  let ?L = "length (discover_hosts e targets) * length ports"
  let ?en = "ending_of e scan_id targets ports tm ?s"
  from run_scan_entries_full [of e targets ports scan_id tm s0] obtain n where
    n: "n \<le> ?L" and
    en: "entries (run_scan e scan_id targets ports tm s0) scan_id =
       map Some (progress_entries ?v ?T n @ tail_entries e (last (progress_entries ?v ?T n)) ?en)" and
    full: "\<forall>r. fst (run_probes e scan_id targets ports tm ?s) = Inr r \<longrightarrow> n = ?L"
    by blast
  let ?sts = "progress_entries ?v ?T n @ tail_entries e (last (progress_entries ?v ?T n)) ?en"
  let ?b = "(case ?en of Failed m \<Rightarrow> 0 | Finished \<Rightarrow> 6 | Unsaved m \<Rightarrow> 5) :: nat"
  let ?c = "(case ?en of Failed m \<Rightarrow> 2 | Finished \<Rightarrow> 0 | Unsaved m \<Rightarrow> 2) :: nat"
  have v: "st_progress ?v = 0" "st_status ?v = ''running''" by simp_all
  have nT: "n \<le> ?T" using n live_tasks_le_total [of e targets ports] by linarith
  have polls: "map (\<lambda>x. fst (get_scan_status x scan_id)) (run_scan e scan_id targets ports tm s0) =
       map (\<lambda>st. Some (Entry st)) ?sts"
    using en by (rule polls_of_entries)
  have st: "map st_status ?sts =
       replicate (Suc n) ''running'' @ replicate ?b ''completed'' @ replicate ?c ''error''"
    using lifecycle_shape(1) [OF v, of ?T n e ?en] .
  have one: "fault e Save = None \<longrightarrow> ?b = 0 \<or> ?c = 0"
  proof
    assume "fault e Save = None"
    then have "\<forall>m. ?en \<noteq> Unsaved m" using ending_not_unsaved by blast
    then show "?b = 0 \<or> ?c = 0" by (cases ?en) simp_all
  qed
  have p0: "st_progress (hd ?sts) = 0"
    using lifecycle_of_entries(2) [of ?v n ?T e ?en] nT by simp
  have bounds: "\<forall>st \<in> set ?sts. 0 \<le> st_progress st \<and> st_progress st \<le> 100"
    using lifecycle_of_entries(3) [of ?v n ?T e ?en] nT by simp
  have srt: "sorted (map st_progress ?sts)"
    using lifecycle_of_entries(4) [of ?v n ?T e ?en] nT by simp
  have "last ?sts = last (tail_entries e (last (progress_entries ?v ?T n)) ?en)"
    using tail_entries_last [of e "last (progress_entries ?v ?T n)" ?en] by simp
  then have fin: "st_status (last ?sts) = ''completed'' \<longrightarrow> st_progress (last ?sts) = 100"
    using tail_entries_last [of e "last (progress_entries ?v ?T n)" ?en]
    by (cases ?en) simp_all
  have unsaved: "\<forall>r msg.
        fst (run_probes e scan_id targets ports tm ?s) = Inr r \<and>
        fault e Detect = None \<and> fault e Save = Some msg \<longrightarrow>
          0 < ?b \<and> 0 < ?c \<and> st_status (last ?sts) = ''error'' \<and>
          st_error (last ?sts) = Some msg \<and> st_progress (last ?sts) = 100"
  proof (intro allI impI)
    fix r msg
    assume a: "fst (run_probes e scan_id targets ports tm ?s) = Inr r \<and>
        fault e Detect = None \<and> fault e Save = Some msg"
    then have u: "?en = Unsaved msg" by (simp add: ending_of_def)
    have 1: "0 < ?b \<and> 0 < ?c" by (simp add: u)
    have 2: "st_status (last ?sts) = ''error''"
      using lifecycle_shape(4) [OF v, of ?en ?T n e] by (simp add: u)
    have 3: "st_error (last ?sts) = Some msg"
      using lifecycle_shape(6) [OF v, of ?en msg ?T n e] by (simp add: u)
    have 4: "st_progress (last ?sts) = 100"
      using lifecycle_shape(5) [OF v, of ?en ?T n e] by (simp add: u)
    from 1 2 3 4 show "0 < ?b \<and> 0 < ?c \<and> st_status (last ?sts) = ''error'' \<and>
          st_error (last ?sts) = Some msg \<and> st_progress (last ?sts) = 100"
      by blast
  qed
  have live: "fault e Discovery = None \<and> (\<forall>k. fault e (Submit k) = None) \<and>
      discover_hosts e targets = targets \<and> targets \<noteq> [] \<and> ports \<noteq> [] \<longrightarrow>
        st_status (?sts ! n) = ''running'' \<and> st_progress (?sts ! n) = 100"
  proof
    assume a: "fault e Discovery = None \<and> (\<forall>k. fault e (Submit k) = None) \<and>
      discover_hosts e targets = targets \<and> targets \<noteq> [] \<and> ports \<noteq> []"
    then have "\<exists>r. fst (run_probes e scan_id targets ports tm ?s) = Inr r"
      using run_probes_no_fault [of e scan_id targets ports tm ?s] by simp
    then have "n = ?L" using full by blast
    then have nT: "n = ?T" using a by simp
    have T: "0 < ?T" using a by simp
    have 1: "st_status (?sts ! n) = ''running''"
      using lifecycle_shape(2) [OF v, of ?T n e ?en] .
    have "st_progress (?sts ! n) = progress_at ?T n"
      using lifecycle_shape(3) [OF v, of ?T n e ?en] .
    also have "\<dots> = 100" unfolding nT using T by (rule progress_at_full)
    finally show "st_status (?sts ! n) = ''running'' \<and> st_progress (?sts ! n) = 100"
      using 1 by simp
  qed
  show ?thesis
    by (intro exI [of _ ?sts] exI [of _ n] exI [of _ ?b] exI [of _ ?c] conjI
        polls st one p0 bounds srt fin unsaved live)
qed

theorem scan_lifecycle_witness:
  "fault env_lab Save = None \<and>
   (\<exists>sts a b c.
     map (\<lambda>x. fst (get_scan_status x ''scan-1''))
       (run_scan env_lab ''scan-1'' [''10.0.0.5'', ''10.0.0.6''] [22, 80] 5 init_scanner) =
       map (\<lambda>st. Some (Entry st)) sts \<and>
     map st_status sts =
       replicate (Suc a) ''running'' @ replicate b ''completed'' @ replicate c ''error'' \<and>
     (b = 0 \<or> c = 0) \<and> st_progress (hd sts) = 0 \<and> sorted (map st_progress sts)) \<and>
   map (\<lambda>x. map_option (\<lambda>v. case v of Entry w \<Rightarrow> (st_status w, st_progress w)
                    | Summary a b c d f \<Rightarrow> (a, b))
          (fst (get_scan_status x ''scan-1'')))
     (run_scan env_lab ''scan-1'' [''10.0.0.5'', ''10.0.0.6''] [22, 80] 5 init_scanner) =
     [Some (''running'', 0), Some (''running'', 25), Some (''running'', 50),
      Some (''completed'', 50), Some (''completed'', 100), Some (''completed'', 100),
      Some (''completed'', 100), Some (''completed'', 100), Some (''completed'', 100)] \<and>
   fst (run_probes env_save_fails ''scan-1'' [''10.0.0.5''] [80] 5
     (start_scan env_save_fails ''scan-1'' [''10.0.0.5''] [80] 5 init_scanner)) =
     Inr [(''10.0.0.5'', \<lparr>tr_status = ''scanned'', tr_ports =
            [(80, \<lparr>pr_status = ''open'', pr_service = ''HTTP'', pr_error = None\<rparr>)]\<rparr>)] \<and>
   fault env_save_fails Detect = None \<and> fault env_save_fails Save = Some ''disk full'' \<and>
   (\<exists>sts a b c.
     map (\<lambda>x. fst (get_scan_status x ''scan-1''))
       (run_scan env_save_fails ''scan-1'' [''10.0.0.5''] [80] 5 init_scanner) =
       map (\<lambda>st. Some (Entry st)) sts \<and>
     map st_status sts =
       replicate (Suc a) ''running'' @ replicate b ''completed'' @ replicate c ''error'' \<and>
     0 < b \<and> 0 < c \<and> st_status (last sts) = ''error'' \<and>
     st_error (last sts) = Some ''disk full'' \<and> st_progress (last sts) = 100) \<and>
   fault env_lab Discovery = None \<and> (\<forall>k. fault env_lab (Submit k) = None) \<and>
   discover_hosts env_lab [''10.0.0.5''] = [''10.0.0.5''] \<and>
   (\<exists>sts a b c.
     map (\<lambda>x. fst (get_scan_status x ''scan-1''))
       (run_scan env_lab ''scan-1'' [''10.0.0.5''] [80] 5 init_scanner) =
       map (\<lambda>st. Some (Entry st)) sts \<and>
     map st_status sts =
       replicate (Suc a) ''running'' @ replicate b ''completed'' @ replicate c ''error'' \<and>
     st_status (sts ! a) = ''running'' \<and> st_progress (sts ! a) = 100)"
proof -
  have h: "fault env_lab Save = None" by (simp add: env_lab_def)
  from scan_lifecycle [of "''scan-1''" env_lab "[''10.0.0.5'', ''10.0.0.6'']" "[22, 80]" 5 init_scanner] h
  have ex: "\<exists>sts a b c.
     map (\<lambda>x. fst (get_scan_status x ''scan-1''))
       (run_scan env_lab ''scan-1'' [''10.0.0.5'', ''10.0.0.6''] [22, 80] 5 init_scanner) =
       map (\<lambda>st. Some (Entry st)) sts \<and>
     map st_status sts =
       replicate (Suc a) ''running'' @ replicate b ''completed'' @ replicate c ''error'' \<and>
     (b = 0 \<or> c = 0) \<and> st_progress (hd sts) = 0 \<and> sorted (map st_progress sts)"
    by blast
  have ev: "map (\<lambda>x. map_option (\<lambda>v. case v of Entry w \<Rightarrow> (st_status w, st_progress w)
                    | Summary a b c d f \<Rightarrow> (a, b))
          (fst (get_scan_status x ''scan-1'')))
     (run_scan env_lab ''scan-1'' [''10.0.0.5'', ''10.0.0.6''] [22, 80] 5 init_scanner) =
     [Some (''running'', 0), Some (''running'', 25), Some (''running'', 50),
      Some (''completed'', 50), Some (''completed'', 100), Some (''completed'', 100),
      Some (''completed'', 100), Some (''completed'', 100), Some (''completed'', 100)]"
    by code_simp
  have s1: "fst (run_probes env_save_fails ''scan-1'' [''10.0.0.5''] [80] 5
     (start_scan env_save_fails ''scan-1'' [''10.0.0.5''] [80] 5 init_scanner)) =
     Inr [(''10.0.0.5'', \<lparr>tr_status = ''scanned'', tr_ports =
            [(80, \<lparr>pr_status = ''open'', pr_service = ''HTTP'', pr_error = None\<rparr>)]\<rparr>)]"
    by code_simp
  have s2: "fault env_save_fails Detect = None"
    and s3: "fault env_save_fails Save = Some ''disk full''"
    by (simp_all add: env_save_fails_def)
  from scan_lifecycle [of "''scan-1''" env_save_fails "[''10.0.0.5'']" "[80]" 5 init_scanner] s1 s2 s3
  have sx: "\<exists>sts a b c.
     map (\<lambda>x. fst (get_scan_status x ''scan-1''))
       (run_scan env_save_fails ''scan-1'' [''10.0.0.5''] [80] 5 init_scanner) =
       map (\<lambda>st. Some (Entry st)) sts \<and>
     map st_status sts =
       replicate (Suc a) ''running'' @ replicate b ''completed'' @ replicate c ''error'' \<and>
     0 < b \<and> 0 < c \<and> st_status (last sts) = ''error'' \<and>
     st_error (last sts) = Some ''disk full'' \<and> st_progress (last sts) = 100"
    by blast
  have l1: "fault env_lab Discovery = None" and l2: "\<forall>k. fault env_lab (Submit k) = None"
    by (simp_all add: env_lab_def)
  have l3: "discover_hosts env_lab [''10.0.0.5''] = [''10.0.0.5'']" by code_simp
  have l4: "[''10.0.0.5''] \<noteq> []" "[80 :: int] \<noteq> []" by simp_all
  from scan_lifecycle [of "''scan-1''" env_lab "[''10.0.0.5'']" "[80]" 5 init_scanner] l1 l2 l3 l4
  have lx: "\<exists>sts a b c.
     map (\<lambda>x. fst (get_scan_status x ''scan-1''))
       (run_scan env_lab ''scan-1'' [''10.0.0.5''] [80] 5 init_scanner) =
       map (\<lambda>st. Some (Entry st)) sts \<and>
     map st_status sts =
       replicate (Suc a) ''running'' @ replicate b ''completed'' @ replicate c ''error'' \<and>
     st_status (sts ! a) = ''running'' \<and> st_progress (sts ! a) = 100"
    by blast
  show ?thesis by (intro conjI h ex ev s1 s2 s3 sx l1 l2 l3 lx)
qed

text \<open>
  With one live host and one port the progress is 100 after the only probe while the
  status is still running; and when saving the file fails the status goes from running
  to completed and then to error, with progress 100 at the end.
\<close>

theorem scan_lifecycle_counterexample:
  "map (\<lambda>x. map_option (\<lambda>st. (st_status st, st_progress st)) (active_scans x ''scan-1''))
     (run_scan env_lab ''scan-1'' [''10.0.0.5''] [80] 5 init_scanner) ! 1 = Some (''running'', 100) \<and>
   map (\<lambda>x. map_option (\<lambda>st. (st_status st, st_progress st)) (active_scans x ''scan-1''))
     (run_scan env_save_fails ''scan-1'' [''10.0.0.5''] [80] 5 init_scanner) =
     [Some (''running'', 0), Some (''running'', 100), Some (''completed'', 100),
      Some (''completed'', 100), Some (''completed'', 100), Some (''completed'', 100),
      Some (''completed'', 100), Some (''error'', 100), Some (''error'', 100)]"
  by code_simp

end
